theory Spec2Isabelle
  imports Complex_Main "HOL-Library.Monad_Syntax"
begin

section \<open>Python values\<close>

text \<open>
  The data of \<^verbatim>\<open>imgaug/augmentables/normalization.py\<close>. A numpy dtype is its kind
  letter (\<^verbatim>\<open>dtype.kind\<close>: f, i, u, b, ...) and its item size in bytes. An array is
  its shape, its dtype and its elements in row-major order; the elements are the numbers
  the array holds, as reals.
\<close>

record dtype =
  kind :: char
  itemsize :: nat

record ndarray =
  shape :: "nat list"
  dtype :: dtype
  elems :: "real list"

text \<open>
  A Python value is a finite tree: \<^verbatim>\<open>None\<close>, an array, a string, a number, a bool,
  a list, a tuple, or an instance of one of the classes of \<^verbatim>\<open>imgaug.augmentables\<close>.
  These classes are not part of the file; each is the constructor its callers use with
  the fields its callers read (the payload and the shape of the image). \<open>PObject\<close> is
  an instance of any other class, by the name of the class.
\<close>

datatype pyval =
    PNone
  | PArray ndarray
  | PStr string
  | PInt int
  | PFloat real
  | PBool bool
  | PList "pyval list"
  | PTuple "pyval list"
  | Keypoint (kp_x: pyval) (kp_y: pyval)
  | BoundingBox (bb_x1: pyval) (bb_y1: pyval) (bb_x2: pyval) (bb_y2: pyval)
  | Polygon (exterior: ndarray)
  | HeatmapsOnImage (arr_0to1: ndarray) (hm_shape: pyval)
  | SegmentationMapOnImage (segmap_arr: ndarray) (segmap_shape: pyval) (nb_classes: "real option")
  | KeypointsOnImage (keypoints: pyval) (kpsoi_shape: pyval)
  | BoundingBoxesOnImage (bounding_boxes: pyval) (bbsoi_shape: pyval)
  | PolygonsOnImage (polygons: pyval) (psoi_shape: pyval)
  | PObject string

text \<open>
  What a call can raise. The two errors with a message carry the values the message is
  formatted from: \<open>UnknownDatatype arg_name valid_type_strs type_str\<close> is the failed
  assertion of \<^verbatim>\<open>_assert_is_of_norm_type\<close>, \<open>ShapesNone\<close> and \<open>ShapesCount\<close>
  are the two \<^verbatim>\<open>ValueError\<close>s of \<^verbatim>\<open>_assert_exactly_n_shapes\<close>.
\<close>

datatype error =
    AssertionError
  | UnknownDatatype string "string list" string
  | ShapesNone string string nat
  | ShapesCount string string nat nat
  | ImagesValueError
  | TypeError
  | ValueError
  | AttributeError
  | IndexError

subsection \<open>The predicates of \<^verbatim>\<open>imgaug.imgaug\<close>\<close>

text \<open>
  Modelled from the spec: \<^verbatim>\<open>ia.is_np_array\<close>, \<^verbatim>\<open>ia.is_iterable\<close>,
  \<^verbatim>\<open>ia.is_string\<close> and \<^verbatim>\<open>ia.is_single_number\<close> live in \<^verbatim>\<open>imgaug/imgaug.py\<close>,
  which is not part of the sources. The spec calls them "is a raw numeric array",
  "is sequence-like", "is string-like" and "a plain number": an array, a list, tuple,
  string or array, a string, and an int or float (a bool is not a plain number).
\<close>

fun is_np_array :: "pyval \<Rightarrow> bool" where
  "is_np_array (PArray a) = True"
| "is_np_array v = False"

fun is_string :: "pyval \<Rightarrow> bool" where
  "is_string (PStr s) = True"
| "is_string v = False"

fun is_iterable :: "pyval \<Rightarrow> bool" where
  "is_iterable (PList xs) = True"
| "is_iterable (PTuple xs) = True"
| "is_iterable (PStr s) = True"
| "is_iterable (PArray a) = True"
| "is_iterable v = False"

fun is_single_number :: "pyval \<Rightarrow> bool" where
  "is_single_number (PInt i) = True"
| "is_single_number (PFloat r) = True"
| "is_single_number v = False"

fun is_tuple :: "pyval \<Rightarrow> bool" where
  "is_tuple (PTuple xs) = True"
| "is_tuple v = False"

fun is_list :: "pyval \<Rightarrow> bool" where
  "is_list (PList xs) = True"
| "is_list v = False"

text \<open>The elements of a list or tuple (\<open>[]\<close> for a value that has none).\<close>

fun items :: "pyval \<Rightarrow> pyval list" where
  "items (PList xs) = xs"
| "items (PTuple xs) = xs"
| "items v = []"

text \<open>\<^verbatim>\<open>v.__class__.__name__\<close>.\<close>

fun class_name :: "pyval \<Rightarrow> string" where
  "class_name PNone = ''NoneType''"
| "class_name (PArray a) = ''ndarray''"
| "class_name (PStr s) = ''str''"
| "class_name (PInt i) = ''int''"
| "class_name (PFloat r) = ''float''"
| "class_name (PBool b) = ''bool''"
| "class_name (PList xs) = ''list''"
| "class_name (PTuple xs) = ''tuple''"
| "class_name (Keypoint x y) = ''Keypoint''"
| "class_name (BoundingBox x1 y1 x2 y2) = ''BoundingBox''"
| "class_name (Polygon e) = ''Polygon''"
| "class_name (HeatmapsOnImage a s) = ''HeatmapsOnImage''"
| "class_name (SegmentationMapOnImage a s n) = ''SegmentationMapOnImage''"
| "class_name (KeypointsOnImage ks s) = ''KeypointsOnImage''"
| "class_name (BoundingBoxesOnImage bs s) = ''BoundingBoxesOnImage''"
| "class_name (PolygonsOnImage ps s) = ''PolygonsOnImage''"
| "class_name (PObject n) = n"

section \<open>The depth-first finder on trees\<close>

text \<open>
  \<^verbatim>\<open>find_first_nonempty(attr, parents)\<close>, lines 869-909, with its \<^verbatim>\<open>for\<close> loop as
  \<open>ffn_loop\<close>: the children still to visit, the chain \<^verbatim>\<open>parents+[attr]\<close> handed
  to each child, and the triple \<^verbatim>\<open>(nonempty_deepest, success_deepest,
  parents_deepest)\<close>. The identity test \<^verbatim>\<open>attr[0] is attr\<close> is the equality
  \<open>hd xs = attr\<close>: identical objects are equal, and \<open>no_self_element\<close> below shows
  that in a finite tree the test never holds. Values that contain themselves are the
  subject of the store-based finder further down.
\<close>

fun find_first_nonempty :: "pyval \<Rightarrow> pyval list \<Rightarrow> pyval \<times> bool \<times> pyval list"
  and ffn_loop :: "pyval list \<Rightarrow> pyval list \<Rightarrow> pyval \<times> bool \<times> pyval list
      \<Rightarrow> pyval \<times> bool \<times> pyval list"
where
  "find_first_nonempty PNone parents = (PNone, True, parents)"
| "find_first_nonempty (PArray a) parents = (PArray a, True, parents)"
| "find_first_nonempty (PStr s) parents = (PStr s, True, parents)"
| "find_first_nonempty (PList xs) parents =
     (if length xs = 0 then (PNone, False, parents)
      else if hd xs = PList xs then (PList xs, True, parents)
      else ffn_loop xs (parents @ [PList xs]) (PNone, False, parents))"
| "find_first_nonempty (PTuple xs) parents =
     (if length xs = 0 then (PNone, False, parents)
      else if hd xs = PTuple xs then (PTuple xs, True, parents)
      else ffn_loop xs (parents @ [PTuple xs]) (PNone, False, parents))"
| "find_first_nonempty attr parents = (attr, True, parents)"
| "ffn_loop [] chain deepest = deepest"
| "ffn_loop (attr_i # rest) chain deepest =
     (case find_first_nonempty attr_i chain of
        (nonempty, success, parents_found) \<Rightarrow>
          if success then (nonempty, success, parents_found)
          else if length parents_found > length (snd (snd deepest))
          then ffn_loop rest chain (nonempty, success, parents_found)
          else ffn_loop rest chain deepest)"

section \<open>The classifier\<close>

text \<open>\<^verbatim>\<open>"-".join(parts)\<close>, \<^verbatim>\<open>s.lstrip("-")\<close> and \<^verbatim>\<open>"%d" % n\<close>.\<close>

fun join_dash :: "string list \<Rightarrow> string" where
  "join_dash [] = []"
| "join_dash [s] = s"
| "join_dash (s # t # ss) = s @ ''-'' @ join_dash (t # ss)"

definition lstrip_dash :: "string \<Rightarrow> string" where
  "lstrip_dash s = dropWhile (\<lambda>c. c = CHR ''-'') s"

fun str_of_nat :: "nat \<Rightarrow> string" where
  "str_of_nat n =
     (if n < 10 then [''0123456789'' ! n]
      else str_of_nat (n div 10) @ [''0123456789'' ! (n mod 10)])"

declare str_of_nat.simps [simp del]

text \<open>The table \<^verbatim>\<open>kind_map\<close> of line 941, with the kind itself for the others.\<close>

definition kind_name :: "char \<Rightarrow> string" where
  "kind_name k =
     (if k = CHR ''f'' then ''float''
      else if k = CHR ''u'' then ''uint''
      else if k = CHR ''i'' then ''int''
      else if k = CHR ''b'' then ''bool''
      else [k])"

text \<open>\<^verbatim>\<open>_nonempty_info_to_type_str\<close>, lines 912-947.\<close>

definition nonempty_info_to_type_str :: "pyval \<Rightarrow> bool \<Rightarrow> pyval list \<Rightarrow> error + string" where
  "nonempty_info_to_type_str nonempty success parents =
     (if \<not> length parents \<le> 4 then Inl AssertionError
      else
        let parent_iters =
              (if length parents > 0
               then join_dash (replicate (length parents) ''iterable'') @ ''-''
               else '''')
        in
        if \<not> success then Inr (parent_iters @ ''iterable[empty]'')
        else if (length parents \<ge> 1 \<and> is_tuple (last parents))
              \<and> (length (items (last parents)) > 0
                   \<and> list_all is_single_number (items (last parents)))
        then Inr (lstrip_dash (join_dash
               [join_dash (replicate (length parents - 1) ''iterable''),
                ''tuple[number,size='' @ str_of_nat (length (items (last parents))) @ '']'']))
        else if nonempty = PNone then Inr ''None''
        else (case nonempty of
                PArray a \<Rightarrow> Inr (parent_iters @ ''array['' @ kind_name (kind (dtype a)) @ '']'')
              | _ \<Rightarrow> Inr (parent_iters @ class_name nonempty)))"

text \<open>\<^verbatim>\<open>estimate_normalization_type\<close>, lines 850-853.\<close>

definition estimate_normalization_type :: "pyval \<Rightarrow> error + string" where
  "estimate_normalization_type inputs =
     (case find_first_nonempty inputs [] of
        (nonempty, success, parents) \<Rightarrow> nonempty_info_to_type_str nonempty success parents)"

text \<open>\<^verbatim>\<open>_assert_is_of_norm_type\<close> and the five wrappers, lines 727-847.\<close>

definition assert_is_of_norm_type :: "string \<Rightarrow> string list \<Rightarrow> string \<Rightarrow> error + unit" where
  "assert_is_of_norm_type type_str valid_type_strs arg_name =
     (if type_str \<in> set valid_type_strs then Inr ()
      else Inl (UnknownDatatype arg_name valid_type_strs type_str))"

definition heatmaps_types :: "string list" where
  "heatmaps_types =
     [''None'', ''array[float]'', ''HeatmapsOnImage'', ''iterable[empty]'',
      ''iterable-array[float]'', ''iterable-HeatmapsOnImage'']"


definition keypoints_types :: "string list" where
  "keypoints_types =
     [''None'', ''array[float]'', ''array[int]'', ''array[uint]'',
      ''tuple[number,size=2]'', ''Keypoint'', ''KeypointsOnImage'', ''iterable[empty]'',
      ''iterable-array[float]'', ''iterable-array[int]'', ''iterable-array[uint]'',
      ''iterable-tuple[number,size=2]'', ''iterable-Keypoint'',
      ''iterable-KeypointsOnImage'', ''iterable-iterable[empty]'',
      ''iterable-iterable-tuple[number,size=2]'', ''iterable-iterable-Keypoint'']"



definition estimate_norm_type_in :: "string list \<Rightarrow> string \<Rightarrow> pyval \<Rightarrow> error + string" where
  "estimate_norm_type_in valid_type_strs arg_name inputs =
     (case estimate_normalization_type inputs of
        Inl e \<Rightarrow> Inl e
      | Inr type_str \<Rightarrow>
          (case assert_is_of_norm_type type_str valid_type_strs arg_name of
             Inl e \<Rightarrow> Inl e
           | Inr u \<Rightarrow> Inr type_str))"

definition estimate_heatmaps_norm_type :: "pyval \<Rightarrow> error + string" where
  "estimate_heatmaps_norm_type heatmaps =
     estimate_norm_type_in heatmaps_types ''heatmaps'' heatmaps"


definition estimate_keypoints_norm_type :: "pyval \<Rightarrow> error + string" where
  "estimate_keypoints_norm_type kps =
     estimate_norm_type_in keypoints_types ''keypoints'' kps"



section \<open>Errors, arrays and sequences\<close>

text \<open>
  A call returns \<open>Inr\<close> its value or \<open>Inl\<close> the error it raises; \<open>then_do\<close>
  runs the next statement when the first one returned, \<open>map_err\<close> is a list
  comprehension (it raises at the first element that raises), \<open>assert_that\<close> is a bare
  \<^verbatim>\<open>assert\<close>.
\<close>

definition then_do :: "error + 'a \<Rightarrow> ('a \<Rightarrow> error + 'b) \<Rightarrow> error + 'b" where
  "then_do m f = (case m of Inl e \<Rightarrow> Inl e | Inr x \<Rightarrow> f x)"

fun map_err :: "('a \<Rightarrow> error + 'b) \<Rightarrow> 'a list \<Rightarrow> error + 'b list" where
  "map_err f [] = Inr []"
| "map_err f (x # xs) =
     (case f x of
        Inl e \<Rightarrow> Inl e
      | Inr y \<Rightarrow> (case map_err f xs of Inl e \<Rightarrow> Inl e | Inr ys \<Rightarrow> Inr (y # ys)))"

definition assert_that :: "bool \<Rightarrow> error + unit" where
  "assert_that b = (if b then Inr () else Inl AssertionError)"

text \<open>
  \<^verbatim>\<open>a.ndim\<close>, \<^verbatim>\<open>a.shape\<close> as a tuple, and the sub-arrays \<^verbatim>\<open>a[0], a[1], ...\<close> that
  iterating over an array yields (a 0-d array cannot be iterated).
\<close>

definition ndim :: "ndarray \<Rightarrow> nat" where
  "ndim a = length (shape a)"

definition shape_tuple :: "ndarray \<Rightarrow> pyval" where
  "shape_tuple a = PTuple (map (\<lambda>n. PInt (int n)) (shape a))"

definition sub_array :: "ndarray \<Rightarrow> nat \<Rightarrow> ndarray" where
  "sub_array a i =
     \<lparr>shape = tl (shape a), dtype = dtype a,
      elems = take (prod_list (tl (shape a))) (drop (i * prod_list (tl (shape a))) (elems a))\<rparr>"

definition array_rows :: "ndarray \<Rightarrow> error + ndarray list" where
  "array_rows a =
     (case shape a of
        [] \<Rightarrow> Inl TypeError
      | n # rest \<Rightarrow> Inr (map (sub_array a) [0..<n]))"

text \<open>\<^verbatim>\<open>len(v)\<close>, \<^verbatim>\<open>for x in v\<close>, \<^verbatim>\<open>v.ndim\<close> and \<^verbatim>\<open>v[i]\<close> on any value.\<close>

fun py_len :: "pyval \<Rightarrow> error + nat" where
  "py_len (PList xs) = Inr (length xs)"
| "py_len (PTuple xs) = Inr (length xs)"
| "py_len (PStr s) = Inr (length s)"
| "py_len (PArray a) = (case shape a of [] \<Rightarrow> Inl TypeError | n # rest \<Rightarrow> Inr n)"
| "py_len v = Inl TypeError"

fun py_iter :: "pyval \<Rightarrow> error + pyval list" where
  "py_iter (PList xs) = Inr xs"
| "py_iter (PTuple xs) = Inr xs"
| "py_iter (PStr s) = Inr (map (\<lambda>c. PStr [c]) s)"
| "py_iter (PArray a) = then_do (array_rows a) (\<lambda>rows. Inr (map PArray rows))"
| "py_iter v = Inl TypeError"

fun py_ndim :: "pyval \<Rightarrow> error + nat" where
  "py_ndim (PArray a) = Inr (ndim a)"
| "py_ndim v = Inl AttributeError"

definition py_index :: "pyval \<Rightarrow> nat \<Rightarrow> error + pyval" where
  "py_index v i =
     then_do (py_iter v) (\<lambda>xs. if i < length xs then Inr (xs ! i) else Inl IndexError)"

section \<open>Image shapes\<close>

text \<open>
  \<^verbatim>\<open>_preprocess_shapes\<close>, lines 10-25: \<^verbatim>\<open>None\<close> stays \<^verbatim>\<open>None\<close>, an array of
  images gives the shape of each image, a list gives its tuples as they are and the
  shape of each array in it.
\<close>

definition preprocess_shapes :: "pyval \<Rightarrow> error + pyval list option" where
  "preprocess_shapes shapes =
     (case shapes of
        PNone \<Rightarrow> Inr None
      | PArray a \<Rightarrow>
          then_do (assert_that (ndim a \<in> {3, 4})) (\<lambda>_.
          then_do (array_rows a) (\<lambda>images. Inr (Some (map shape_tuple images))))
      | PList xs \<Rightarrow>
          then_do (map_err (\<lambda>shape_i.
              if is_tuple shape_i then Inr shape_i
              else (case shape_i of PArray b \<Rightarrow> Inr (shape_tuple b) | _ \<Rightarrow> Inl AssertionError))
            xs) (\<lambda>result. Inr (Some result))
      | _ \<Rightarrow> Inl AssertionError)"

text \<open>
  \<^verbatim>\<open>_assert_exactly_n_shapes\<close>, lines 28-53. It returns the list it has checked, so
  that the caller's \<^verbatim>\<open>zip(inputs, shapes)\<close> and \<^verbatim>\<open>shapes[0]\<close> read a list.
\<close>

definition assert_exactly_n_shapes ::
    "pyval list option \<Rightarrow> nat \<Rightarrow> string \<Rightarrow> string \<Rightarrow> error + pyval list" where
  "assert_exactly_n_shapes shapes n from_ntype to_ntype =
     (case shapes of
        None \<Rightarrow> Inl (ShapesNone from_ntype to_ntype n)
      | Some ss \<Rightarrow>
          if length ss \<noteq> n then Inl (ShapesCount from_ntype to_ntype n (length ss))
          else Inr ss)"

section \<open>Heatmaps\<close>

text \<open>
  The constructor \<^verbatim>\<open>HeatmapsOnImage(arr, shape=shape)\<close> keeps an array and the shape
  of its image; anything but an array has no \<^verbatim>\<open>ndim\<close>.
\<close>

definition new_HeatmapsOnImage :: "pyval \<Rightarrow> pyval \<Rightarrow> error + pyval" where
  "new_HeatmapsOnImage arr shp =
     (case arr of PArray a \<Rightarrow> Inr (HeatmapsOnImage a shp) | _ \<Rightarrow> Inl AttributeError)"

text \<open>\<^verbatim>\<open>normalize_heatmaps\<close>, lines 82-110.\<close>

definition normalize_heatmaps :: "pyval \<Rightarrow> pyval \<Rightarrow> error + pyval" where
  "normalize_heatmaps inputs shapes0 =
     then_do (preprocess_shapes shapes0) (\<lambda>shapes.
     then_do (estimate_heatmaps_norm_type inputs) (\<lambda>ntype.
       if ntype = ''None'' then Inr PNone
       else if ntype = ''array[float]'' then
         then_do (py_len inputs) (\<lambda>n.
         then_do (assert_exactly_n_shapes shapes n ntype ''List[HeatmapsOnImage]'') (\<lambda>ss.
         then_do (py_ndim inputs) (\<lambda>d.
         then_do (assert_that (d = 4)) (\<lambda>_.
         then_do (py_iter inputs) (\<lambda>attrs.
         then_do (map_err (\<lambda>(attr_i, shape_i). new_HeatmapsOnImage attr_i shape_i)
                    (zip attrs ss)) (\<lambda>hms. Inr (PList hms)))))))
       else if ntype = ''HeatmapsOnImage'' then Inr (PList [inputs])
       else if ntype = ''iterable[empty]'' then Inr PNone
       else if ntype = ''iterable-array[float]'' then
         then_do (py_len inputs) (\<lambda>n.
         then_do (assert_exactly_n_shapes shapes n ntype ''List[HeatmapsOnImage]'') (\<lambda>ss.
         then_do (py_iter inputs) (\<lambda>attrs.
         then_do (map_err py_ndim attrs) (\<lambda>ds.
         then_do (assert_that (list_all (\<lambda>d. d = 3) ds)) (\<lambda>_.
         then_do (map_err (\<lambda>(attr_i, shape_i). new_HeatmapsOnImage attr_i shape_i)
                    (zip attrs ss)) (\<lambda>hms. Inr (PList hms)))))))
       else
         then_do (assert_that (ntype = ''iterable-HeatmapsOnImage'')) (\<lambda>_. Inr inputs)))"

section \<open>Restoring dtypes and merging\<close>

text \<open>
  Modelled from the spec: \<^verbatim>\<open>iadt.restore_dtypes_\<close> lives in \<^verbatim>\<open>imgaug/dtypes.py\<close>,
  which is not part of the sources. The spec: "numeric values are cast to
  \<^verbatim>\<open>target_dtype\<close> [...] this component performs a direct cast, not a clamped one".
  The conversion of one number to a dtype is the parameter \<open>cast\<close>.
\<close>

definition restore_dtypes :: "(dtype \<Rightarrow> real \<Rightarrow> real) \<Rightarrow> ndarray \<Rightarrow> dtype \<Rightarrow> ndarray" where
  "restore_dtypes cast arr input_dtype =
     arr\<lparr>dtype := input_dtype, elems := map (cast input_dtype) (elems arr)\<rparr>"

text \<open>
  The values \<^verbatim>\<open>restore_dtype_and_merge\<close> is called with and returns: an array, or a
  list of such values.
\<close>

datatype nest = Arr ndarray | Lst "nest list"

fun pyval_of_nest :: "nest \<Rightarrow> pyval" where
  "pyval_of_nest (Arr a) = PArray a"
| "pyval_of_nest (Lst xs) = PList (map pyval_of_nest xs)"

text \<open>\<^verbatim>\<open>arr_i.shape\<close>: a list has no such attribute.\<close>

fun the_array :: "nest \<Rightarrow> error + ndarray" where
  "the_array (Arr a) = Inr a"
| "the_array (Lst xs) = Inl AttributeError"

text \<open>
  \<^verbatim>\<open>np.array(arr)\<close> for a non-empty list of arrays of one shape and one dtype: the
  arrays stacked along a new first axis.
\<close>

definition np_array :: "ndarray list \<Rightarrow> ndarray" where
  "np_array arrs =
     \<lparr>shape = length arrs # shape (hd arrs), dtype = dtype (hd arrs),
      elems = concat (map elems arrs)\<rparr>"

text \<open>
  \<^verbatim>\<open>restore_dtype_and_merge\<close>, lines 856-866; \<open>restore_each\<close> is its list
  comprehension. \<^verbatim>\<open>len(set(shapes))\<close> is the number of distinct shapes.
\<close>

fun restore_dtype_and_merge :: "(dtype \<Rightarrow> real \<Rightarrow> real) \<Rightarrow> nest \<Rightarrow> dtype \<Rightarrow> error + nest"
  and restore_each :: "(dtype \<Rightarrow> real \<Rightarrow> real) \<Rightarrow> nest list \<Rightarrow> dtype \<Rightarrow> error + nest list"
where
  "restore_dtype_and_merge cast (Lst xs) input_dtype =
     (case restore_each cast xs input_dtype of
        Inl e \<Rightarrow> Inl e
      | Inr arr \<Rightarrow>
          (case map_err the_array arr of
             Inl e \<Rightarrow> Inl e
           | Inr arrs \<Rightarrow>
               if length (remdups (map shape arrs)) = 1
               then Inr (Arr (restore_dtypes cast (np_array arrs) input_dtype))
               else Inr (Lst arr)))"
| "restore_dtype_and_merge cast (Arr a) input_dtype =
     Inr (Arr (restore_dtypes cast a input_dtype))"
| "restore_each cast [] input_dtype = Inr []"
| "restore_each cast (arr_i # rest) input_dtype =
     (case restore_dtype_and_merge cast arr_i input_dtype of
        Inl e \<Rightarrow> Inl e
      | Inr y \<Rightarrow>
          (case restore_each cast rest input_dtype of
             Inl e \<Rightarrow> Inl e
           | Inr ys \<Rightarrow> Inr (y # ys)))"

section \<open>Heatmaps, inverted\<close>

text \<open>\<^verbatim>\<open>v.dtype\<close>, \<^verbatim>\<open>v.shape[i]\<close> and \<^verbatim>\<open>hm_i.arr_0to1\<close>.\<close>

fun py_dtype :: "pyval \<Rightarrow> error + dtype" where
  "py_dtype (PArray a) = Inr (dtype a)"
| "py_dtype v = Inl AttributeError"

fun py_shape_at :: "pyval \<Rightarrow> nat \<Rightarrow> error + nat" where
  "py_shape_at (PArray a) i = (if i < length (shape a) then Inr (shape a ! i) else Inl IndexError)"
| "py_shape_at v i = Inl AttributeError"



section \<open>Keypoints\<close>

text \<open>
  Modelled from the spec: the classes \<^verbatim>\<open>Keypoint\<close> and \<^verbatim>\<open>KeypointsOnImage\<close> live in
  \<^verbatim>\<open>imgaug/augmentables/kps.py\<close>, which is not part of the sources. The spec gives
  each canonical container "a constructor taking (raw_payload, shape_descriptor)", "an
  accessor returning the payload reshaped to a caller-facing numeric array" and
  "accessors returning their constituent leaf elements [...] as ordered sequences".
  \<open>from_coords_array\<close> takes a \<open>(K, 2)\<close> array to \<open>K\<close> keypoints,
  \<open>get_coords_array\<close> gives the coordinates back as a \<open>(K, 2)\<close> array; its dtype is
  \<^verbatim>\<open>np.float32\<close>, the dtype the file itself gives to coordinate arrays (line 214).
\<close>

definition float32 :: dtype where
  "float32 = \<lparr>kind = CHR ''f'', itemsize = 4\<rparr>"

fun num_of :: "pyval \<Rightarrow> error + real" where
  "num_of (PInt i) = Inr (of_int i)"
| "num_of (PFloat r) = Inr r"
| "num_of (PBool b) = Inr (if b then 1 else 0)"
| "num_of v = Inl TypeError"

definition keypoint_of_row :: "ndarray \<Rightarrow> error + pyval" where
  "keypoint_of_row r =
     (case elems r of [x, y] \<Rightarrow> Inr (Keypoint (PFloat x) (PFloat y)) | _ \<Rightarrow> Inl IndexError)"

definition from_coords_array :: "pyval \<Rightarrow> pyval \<Rightarrow> error + pyval" where
  "from_coords_array coords shp =
     (case coords of
        PArray a \<Rightarrow>
          then_do (assert_that (ndim a = 2 \<and> shape a ! 1 = 2)) (\<lambda>_.
          then_do (array_rows a) (\<lambda>rows.
          then_do (map_err keypoint_of_row rows) (\<lambda>kps.
            Inr (KeypointsOnImage (PList kps) shp))))
      | _ \<Rightarrow> Inl AttributeError)"

fun attr_keypoints :: "pyval \<Rightarrow> error + pyval" where
  "attr_keypoints (KeypointsOnImage ks s) = Inr ks"
| "attr_keypoints v = Inl AttributeError"

fun attr_x :: "pyval \<Rightarrow> error + pyval" where
  "attr_x (Keypoint x y) = Inr x"
| "attr_x v = Inl AttributeError"

fun attr_y :: "pyval \<Rightarrow> error + pyval" where
  "attr_y (Keypoint x y) = Inr y"
| "attr_y v = Inl AttributeError"

definition coords_of_keypoint :: "pyval \<Rightarrow> error + real list" where
  "coords_of_keypoint kp =
     then_do (attr_x kp) (\<lambda>x. then_do (num_of x) (\<lambda>xr.
     then_do (attr_y kp) (\<lambda>y. then_do (num_of y) (\<lambda>yr. Inr [xr, yr]))))"

definition get_coords_array :: "pyval \<Rightarrow> error + ndarray" where
  "get_coords_array kpsoi =
     then_do (attr_keypoints kpsoi) (\<lambda>ks.
     then_do (py_iter ks) (\<lambda>kps.
     then_do (map_err coords_of_keypoint kps) (\<lambda>rows.
       Inr \<lparr>shape = [length kps, 2], dtype = float32, elems = concat rows\<rparr>)))"

text \<open>
  \<^verbatim>\<open>np.array(v, dtype=np.float32)\<close> for a number, an array, or a nesting of lists and
  tuples of them: the shape and the elements, each cast to \<^verbatim>\<open>float32\<close>. numpy refuses
  a ragged nesting; a value that is not a number raises here as well.
\<close>

fun np_array_of :: "pyval \<Rightarrow> error + (nat list \<times> real list)"
  and np_array_of_each :: "pyval list \<Rightarrow> error + (nat list \<times> real list) list"
where
  "np_array_of (PInt i) = Inr ([], [of_int i])"
| "np_array_of (PFloat r) = Inr ([], [r])"
| "np_array_of (PBool b) = Inr ([], [if b then 1 else 0])"
| "np_array_of (PArray a) = Inr (shape a, elems a)"
| "np_array_of (PList xs) =
     (case np_array_of_each xs of
        Inl e \<Rightarrow> Inl e
      | Inr [] \<Rightarrow> Inr ([0], [])
      | Inr (r # rs) \<Rightarrow>
          if list_all (\<lambda>q. fst q = fst r) rs
          then Inr (Suc (length rs) # fst r, concat (map snd (r # rs)))
          else Inl ValueError)"
| "np_array_of (PTuple xs) =
     (case np_array_of_each xs of
        Inl e \<Rightarrow> Inl e
      | Inr [] \<Rightarrow> Inr ([0], [])
      | Inr (r # rs) \<Rightarrow>
          if list_all (\<lambda>q. fst q = fst r) rs
          then Inr (Suc (length rs) # fst r, concat (map snd (r # rs)))
          else Inl ValueError)"
| "np_array_of v = Inl ValueError"
| "np_array_of_each [] = Inr []"
| "np_array_of_each (x # xs) =
     (case np_array_of x of
        Inl e \<Rightarrow> Inl e
      | Inr r \<Rightarrow> (case np_array_of_each xs of Inl e \<Rightarrow> Inl e | Inr rs \<Rightarrow> Inr (r # rs)))"

definition np_array_float32 :: "(dtype \<Rightarrow> real \<Rightarrow> real) \<Rightarrow> pyval \<Rightarrow> error + pyval" where
  "np_array_float32 cast v =
     then_do (np_array_of v) (\<lambda>(shp, es).
       Inr (PArray \<lparr>shape = shp, dtype = float32, elems = map (cast float32) es\<rparr>))"

text \<open>\<^verbatim>\<open>for x, y in inputs\<close> unpacks each element into two; \<^verbatim>\<open>shapes[0]\<close>.\<close>

definition unpack2 :: "pyval \<Rightarrow> error + pyval \<times> pyval" where
  "unpack2 v =
     then_do (py_iter v) (\<lambda>xs. case xs of [x, y] \<Rightarrow> Inr (x, y) | _ \<Rightarrow> Inl ValueError)"

definition first_shape :: "pyval list \<Rightarrow> error + pyval" where
  "first_shape ss = (case ss of [] \<Rightarrow> Inl IndexError | s # rest \<Rightarrow> Inr s)"

text \<open>\<^verbatim>\<open>normalize_keypoints\<close>, lines 155-224.\<close>

definition normalize_keypoints ::
    "(dtype \<Rightarrow> real \<Rightarrow> real) \<Rightarrow> pyval \<Rightarrow> pyval \<Rightarrow> error + pyval" where
  "normalize_keypoints cast inputs shapes0 =
     then_do (preprocess_shapes shapes0) (\<lambda>shapes.
     then_do (estimate_keypoints_norm_type inputs) (\<lambda>ntype.
       if ntype = ''None'' then Inr inputs
       else if ntype \<in> set [''array[float]'', ''array[int]'', ''array[uint]''] then
         then_do (py_len inputs) (\<lambda>n.
         then_do (assert_exactly_n_shapes shapes n ntype ''List[KeypointsOnImage]'') (\<lambda>ss.
         then_do (py_ndim inputs) (\<lambda>d.
         then_do (assert_that (d = 3)) (\<lambda>_.
         then_do (py_shape_at inputs 2) (\<lambda>c.
         then_do (assert_that (c = 2)) (\<lambda>_.
         then_do (py_iter inputs) (\<lambda>attrs.
         then_do (map_err (\<lambda>(attr_i, shp). from_coords_array attr_i shp) (zip attrs ss))
           (\<lambda>r. Inr (PList r)))))))))
       else if ntype = ''tuple[number,size=2]'' then
         then_do (assert_exactly_n_shapes shapes 1 ntype ''List[KeypointsOnImage]'') (\<lambda>ss.
         then_do (py_index inputs 0) (\<lambda>x.
         then_do (py_index inputs 1) (\<lambda>y.
         then_do (first_shape ss) (\<lambda>shp.
           Inr (PList [KeypointsOnImage (PList [Keypoint x y]) shp])))))
       else if ntype = ''Keypoint'' then
         then_do (assert_exactly_n_shapes shapes 1 ntype ''List[KeypointsOnImage]'') (\<lambda>ss.
         then_do (first_shape ss) (\<lambda>shp.
           Inr (PList [KeypointsOnImage (PList [inputs]) shp])))
       else if ntype = ''KeypointsOnImage'' then Inr (PList [inputs])
       else if ntype = ''iterable[empty]'' then Inr PNone
       else if ntype \<in> set [''iterable-array[float]'', ''iterable-array[int]'',
                            ''iterable-array[uint]''] then
         then_do (py_len inputs) (\<lambda>n.
         then_do (assert_exactly_n_shapes shapes n ntype ''List[KeypointsOnImage]'') (\<lambda>ss.
         then_do (py_iter inputs) (\<lambda>attrs.
         then_do (map_err py_ndim attrs) (\<lambda>ds.
         then_do (assert_that (list_all (\<lambda>d. d = 2) ds)) (\<lambda>_.
         then_do (map_err (\<lambda>attr_i. py_shape_at attr_i 1) attrs) (\<lambda>cs.
         then_do (assert_that (list_all (\<lambda>c. c = 2) cs)) (\<lambda>_.
         then_do (map_err (\<lambda>(attr_i, shp). from_coords_array attr_i shp) (zip attrs ss))
           (\<lambda>r. Inr (PList r)))))))))
       else if ntype = ''iterable-tuple[number,size=2]'' then
         then_do (assert_exactly_n_shapes shapes 1 ntype ''List[KeypointsOnImage]'') (\<lambda>ss.
         then_do (py_iter inputs) (\<lambda>elts.
         then_do (map_err (\<lambda>e. then_do (unpack2 e) (\<lambda>(x, y). Inr (Keypoint x y))) elts) (\<lambda>kps.
         then_do (first_shape ss) (\<lambda>shp.
           Inr (PList [KeypointsOnImage (PList kps) shp])))))
       else if ntype = ''iterable-Keypoint'' then
         then_do (assert_exactly_n_shapes shapes 1 ntype ''List[KeypointsOnImage]'') (\<lambda>ss.
         then_do (first_shape ss) (\<lambda>shp.
           Inr (PList [KeypointsOnImage inputs shp])))
       else if ntype = ''iterable-KeypointsOnImage'' then Inr inputs
       else if ntype = ''iterable-iterable[empty]'' then Inr PNone
       else if ntype = ''iterable-iterable-tuple[number,size=2]'' then
         then_do (py_len inputs) (\<lambda>n.
         then_do (assert_exactly_n_shapes shapes n ntype ''List[KeypointsOnImage]'') (\<lambda>ss.
         then_do (py_iter inputs) (\<lambda>attrs.
         then_do (map_err (\<lambda>(attr_i, shp).
                    then_do (np_array_float32 cast attr_i) (\<lambda>a. from_coords_array a shp))
                    (zip attrs ss))
           (\<lambda>r. Inr (PList r)))))
       else
         then_do (assert_that (ntype = ''iterable-iterable-Keypoint'')) (\<lambda>_.
         then_do (py_len inputs) (\<lambda>n.
         then_do (assert_exactly_n_shapes shapes n ntype ''List[KeypointsOnImage]'') (\<lambda>ss.
         then_do (py_iter inputs) (\<lambda>attrs.
           Inr (PList (map (\<lambda>(attr_i, shp). KeypointsOnImage attr_i shp) (zip attrs ss)))))))))"

text \<open>\<^verbatim>\<open>v[:]\<close>, a copy of a sequence.\<close>

fun py_copy :: "pyval \<Rightarrow> error + pyval" where
  "py_copy (PList xs) = Inr (PList xs)"
| "py_copy (PTuple xs) = Inr (PTuple xs)"
| "py_copy (PStr s) = Inr (PStr s)"
| "py_copy (PArray a) = Inr (PArray a)"
| "py_copy v = Inl TypeError"

definition xy_tuple :: "pyval \<Rightarrow> error + pyval" where
  "xy_tuple kp = then_do (attr_x kp) (\<lambda>x. then_do (attr_y kp) (\<lambda>y. Inr (PTuple [x, y])))"

text \<open>\<^verbatim>\<open>invert_normalize_keypoints\<close>, lines 510-565.\<close>

definition invert_normalize_keypoints ::
    "(dtype \<Rightarrow> real \<Rightarrow> real) \<Rightarrow> pyval \<Rightarrow> pyval \<Rightarrow> error + pyval" where
  "invert_normalize_keypoints cast kps keypoints_old =
     then_do (estimate_keypoints_norm_type keypoints_old) (\<lambda>ntype.
       if ntype = ''None'' then
         then_do (assert_that (kps = PNone)) (\<lambda>_. Inr kps)
       else if ntype \<in> set [''array[float]'', ''array[int]'', ''array[uint]''] then
         then_do (py_len kps) (\<lambda>n.
         then_do (assert_that (n = 1)) (\<lambda>_.
         then_do (py_dtype keypoints_old) (\<lambda>input_dtype.
         then_do (py_iter kps) (\<lambda>ks.
         then_do (map_err get_coords_array ks) (\<lambda>arrs.
         then_do (restore_dtype_and_merge cast (Lst (map Arr arrs)) input_dtype) (\<lambda>r.
           Inr (pyval_of_nest r)))))))
       else if ntype = ''tuple[number,size=2]'' then
         then_do (py_len kps) (\<lambda>n.
         then_do (assert_that (n = 1)) (\<lambda>_.
         then_do (py_index kps 0) (\<lambda>kpsoi.
         then_do (attr_keypoints kpsoi) (\<lambda>ks.
         then_do (py_len ks) (\<lambda>m.
         then_do (assert_that (m = 1)) (\<lambda>_.
         then_do (py_index ks 0) xy_tuple))))))
       else if ntype = ''Keypoint'' then
         then_do (py_len kps) (\<lambda>n.
         then_do (assert_that (n = 1)) (\<lambda>_.
         then_do (py_index kps 0) (\<lambda>kpsoi.
         then_do (attr_keypoints kpsoi) (\<lambda>ks.
         then_do (py_len ks) (\<lambda>m.
         then_do (assert_that (m = 1)) (\<lambda>_.
           py_index ks 0))))))
       else if ntype = ''KeypointsOnImage'' then
         then_do (py_len kps) (\<lambda>n.
         then_do (assert_that (n = 1)) (\<lambda>_. py_index kps 0))
       else if ntype = ''iterable[empty]'' then
         then_do (assert_that (kps = PNone)) (\<lambda>_. Inr (PList []))
       else if ntype \<in> set [''iterable-array[float]'', ''iterable-array[int]'',
                            ''iterable-array[uint]''] then
         (case find_first_nonempty keypoints_old [] of
            (nonempty, _, _) \<Rightarrow>
              then_do (py_dtype nonempty) (\<lambda>input_dtype.
              then_do (py_iter kps) (\<lambda>ks.
              then_do (map_err (\<lambda>kps_i.
                  then_do (get_coords_array kps_i) (\<lambda>a.
                    restore_dtype_and_merge cast (Arr a) input_dtype)) ks) (\<lambda>rs.
                Inr (PList (map pyval_of_nest rs))))))
       else if ntype = ''iterable-tuple[number,size=2]'' then
         then_do (py_len kps) (\<lambda>n.
         then_do (assert_that (n = 1)) (\<lambda>_.
         then_do (py_index kps 0) (\<lambda>kpsoi.
         then_do (attr_keypoints kpsoi) (\<lambda>ks.
         then_do (py_iter ks) (\<lambda>kpl.
         then_do (map_err xy_tuple kpl) (\<lambda>r. Inr (PList r)))))))
       else if ntype = ''iterable-Keypoint'' then
         then_do (py_len kps) (\<lambda>n.
         then_do (assert_that (n = 1)) (\<lambda>_.
         then_do (py_index kps 0) attr_keypoints))
       else if ntype = ''iterable-KeypointsOnImage'' then Inr kps
       else if ntype = ''iterable-iterable[empty]'' then
         then_do (assert_that (kps = PNone)) (\<lambda>_. py_copy keypoints_old)
       else if ntype = ''iterable-iterable-tuple[number,size=2]'' then
         then_do (py_iter kps) (\<lambda>ks.
         then_do (map_err (\<lambda>kpsoi.
             then_do (attr_keypoints kpsoi) (\<lambda>kl.
             then_do (py_iter kl) (\<lambda>kpl.
             then_do (map_err xy_tuple kpl) (\<lambda>r. Inr (PList r))))) ks) (\<lambda>r. Inr (PList r)))
       else
         then_do (assert_that (ntype = ''iterable-iterable-Keypoint'')) (\<lambda>_.
         then_do (py_iter kps) (\<lambda>ks.
         then_do (map_err (\<lambda>kpsoi.
             then_do (attr_keypoints kpsoi) (\<lambda>kl.
             then_do (py_iter kl) (\<lambda>kpl. Inr (PList kpl)))) ks) (\<lambda>r. Inr (PList r)))))"

section \<open>Images\<close>

text \<open>
  \<^verbatim>\<open>normalize_images\<close>, lines 56-79. \<^verbatim>\<open>a[..., np.newaxis]\<close> appends an axis of
  length 1 to the shape, \<^verbatim>\<open>a[np.newaxis, ..., np.newaxis]\<close> adds one in front as well;
  the elements stay as they are.
\<close>

definition normalize_images :: "pyval \<Rightarrow> error + pyval" where
  "normalize_images images =
     (if images = PNone then Inr PNone
      else if is_np_array images then
        (case images of
           PArray a \<Rightarrow>
             if ndim a = 2 then Inr (PArray (a\<lparr>shape := 1 # shape a @ [1]\<rparr>))
             else if ndim a = 3 then Inr (PArray (a\<lparr>shape := shape a @ [1]\<rparr>))
             else Inr images
         | _ \<Rightarrow> Inr images)
      else if is_iterable images then
        then_do (py_iter images) (\<lambda>imgs.
        then_do (map_err (\<lambda>image.
            then_do (py_ndim image) (\<lambda>d.
              if d = 2 then
                (case image of
                   PArray a \<Rightarrow> Inr (PArray (a\<lparr>shape := shape a @ [1]\<rparr>))
                 | _ \<Rightarrow> Inl AttributeError)
              else then_do (assert_that (d = 3)) (\<lambda>_. Inr image))) imgs) (\<lambda>result.
          Inr (PList result)))
      else Inl ImagesValueError)"

text \<open>
  Index 0 along axis \<open>k\<close>, as in \<^verbatim>\<open>a[0, ...]\<close>, \<^verbatim>\<open>a[..., 0]\<close> and
  \<^verbatim>\<open>a[:, :, 0]\<close>: the axis goes, and of each run of \<open>shape ! k\<close> blocks the first block
  stays. An axis the array does not have, or one of length 0, is an \<^verbatim>\<open>IndexError\<close>.
\<close>

definition index0_at :: "nat \<Rightarrow> ndarray \<Rightarrow> error + ndarray" where
  "index0_at k a =
     (if k < length (shape a) \<and> 0 < shape a ! k then
        (let outer = prod_list (take k (shape a));
             inner = prod_list (drop (Suc k) (shape a))
         in Inr \<lparr>shape = take k (shape a) @ drop (Suc k) (shape a), dtype = dtype a,
                 elems = concat (map (\<lambda>j. take inner (drop (j * (shape a ! k) * inner) (elems a)))
                                  [0..<outer])\<rparr>)
      else Inl IndexError)"

fun the_ndarray :: "pyval \<Rightarrow> error + ndarray" where
  "the_ndarray (PArray a) = Inr a"
| "the_ndarray v = Inl AttributeError"

text \<open>
  \<^verbatim>\<open>invert_normalize_images\<close>, lines 421-450. \<^verbatim>\<open>zip\<close> stops at the shorter of its
  two arguments.
\<close>

definition invert_normalize_images :: "pyval \<Rightarrow> pyval \<Rightarrow> error + pyval" where
  "invert_normalize_images images images_old =
     (if images_old = PNone then
        then_do (assert_that (images = PNone)) (\<lambda>_. Inr PNone)
      else if is_np_array images_old then
        then_do (py_ndim images_old) (\<lambda>d_old.
          if d_old = 2 then
            then_do (py_shape_at images 0) (\<lambda>n0.
            then_do (assert_that (n0 = 1)) (\<lambda>_.
            then_do (py_shape_at images 3) (\<lambda>n3.
            then_do (assert_that (n3 = 1)) (\<lambda>_.
            then_do (the_ndarray images) (\<lambda>a.
            then_do (index0_at 0 a) (\<lambda>b.
            then_do (index0_at (ndim b - 1) b) (\<lambda>c. Inr (PArray c))))))))
          else if d_old = 3 then
            then_do (py_shape_at images 3) (\<lambda>n3.
            then_do (assert_that (n3 = 1)) (\<lambda>_.
            then_do (the_ndarray images) (\<lambda>a.
            then_do (index0_at (ndim a - 1) a) (\<lambda>c. Inr (PArray c)))))
          else Inr images)
      else if is_iterable images_old then
        then_do (py_iter images) (\<lambda>imgs.
        then_do (py_iter images_old) (\<lambda>olds.
        then_do (map_err (\<lambda>(image, image_old).
            then_do (py_ndim image_old) (\<lambda>d_old.
              if d_old = 2 then
                then_do (py_shape_at image 2) (\<lambda>n2.
                then_do (assert_that (n2 = 1)) (\<lambda>_.
                then_do (the_ndarray image) (\<lambda>a.
                then_do (index0_at 2 a) (\<lambda>c. Inr (PArray c)))))
              else
                then_do (py_ndim image) (\<lambda>d.
                then_do (assert_that (d = 3)) (\<lambda>_.
                then_do (assert_that (d_old = 3)) (\<lambda>_. Inr image)))))
            (zip imgs olds)) (\<lambda>result. Inr (PList result))))
      else Inl ImagesValueError)"

text \<open>
  In a numpy array the number of elements is the product of the shape. \<open>add_channel\<close>
  is what \<^verbatim>\<open>normalize_images\<close> does to one image of a list.
\<close>

definition well_formed :: "ndarray \<Rightarrow> bool" where
  "well_formed a = (length (elems a) = prod_list (shape a))"

definition add_channel :: "ndarray \<Rightarrow> ndarray" where
  "add_channel b = (if ndim b = 2 then b\<lparr>shape := shape b @ [1]\<rparr> else b)"

section \<open>The finder on values that can contain themselves\<close>

text \<open>
  A Python list can be an element of itself, and \<^verbatim>\<open>attr[0] is attr\<close> compares
  identities. Here a sequence is an address, the store gives the elements of the
  sequence at each address, and two sequences are identical when their addresses are
  equal. The finder looks at nothing else in a value than whether it is \<^verbatim>\<open>None\<close>, an
  array, a string or a sequence: \<open>SObject\<close> is any other value, by the name of its class.
\<close>

datatype sval = SNone | SArray ndarray | SStr string | SObject string | SSeq nat

type_synonym store = "nat \<Rightarrow> sval list"

text \<open>
  \<^verbatim>\<open>find_first_nonempty\<close>, lines 869-909, once more. A call either finds
  (\<open>Find attr parents\<close>) or runs the rest of the \<^verbatim>\<open>for\<close> loop (\<open>Loop\<close>: the children
  still to visit, the chain \<^verbatim>\<open>parents+[attr]\<close>, and the deepest failed result so far).
  The recursion need not end: the result is \<open>None\<close> when it does not.
\<close>

datatype ffn_call =
    Find sval "sval list"
  | Loop "sval list" "sval list" "sval \<times> bool \<times> sval list"

partial_function (option) ffn_run :: "store \<Rightarrow> ffn_call \<Rightarrow> (sval \<times> bool \<times> sval list) option"
where
  "ffn_run h c =
     (case c of
        Find attr parents \<Rightarrow>
          (case attr of
             SNone \<Rightarrow> Some (attr, True, parents)
           | SArray a \<Rightarrow> Some (attr, True, parents)
           | SSeq p \<Rightarrow>
               if length (h p) = 0 then Some (SNone, False, parents)
               else if hd (h p) = SSeq p then Some (attr, True, parents)
               else ffn_run h (Loop (h p) (parents @ [attr]) (SNone, False, parents))
           | _ \<Rightarrow> Some (attr, True, parents))
      | Loop children chain deepest \<Rightarrow>
          (case children of
             [] \<Rightarrow> Some deepest
           | attr_i # rest \<Rightarrow>
               Option.bind (ffn_run h (Find attr_i chain))
                 (\<lambda>(nonempty, success, parents_found).
                    if success then Some (nonempty, success, parents_found)
                    else if length parents_found > length (snd (snd deepest))
                    then ffn_run h (Loop rest chain (nonempty, success, parents_found))
                    else ffn_run h (Loop rest chain deepest))))"

definition find_first_nonempty_st ::
    "store \<Rightarrow> sval \<Rightarrow> sval list \<Rightarrow> (sval \<times> bool \<times> sval list) option" where
  "find_first_nonempty_st h attr parents = ffn_run h (Find attr parents)"

definition ffn_loop_st ::
    "store \<Rightarrow> sval list \<Rightarrow> sval list \<Rightarrow> sval \<times> bool \<times> sval list
     \<Rightarrow> (sval \<times> bool \<times> sval list) option" where
  "ffn_loop_st h children chain deepest = ffn_run h (Loop children chain deepest)"

text \<open>
  A store is ranked when every sequence that the finder descends into (one that is not
  its own first element) has only sequences of smaller rank as elements: nothing is
  reached again from inside itself.
\<close>

definition ranked :: "store \<Rightarrow> (nat \<Rightarrow> nat) \<Rightarrow> bool" where
  "ranked h rank = (\<forall>p q. SSeq q \<in> set (h p) \<longrightarrow> hd (h p) \<noteq> SSeq p \<longrightarrow> rank q < rank p)"

text \<open>
  The choice the loop makes among failed results: a later one replaces the one kept
  only when its chain is strictly longer.
\<close>

definition deeper :: "sval \<times> bool \<times> sval list \<Rightarrow> sval \<times> bool \<times> sval list
    \<Rightarrow> sval \<times> bool \<times> sval list" where
  "deeper kept r = (if length (snd (snd r)) > length (snd (snd kept)) then r else kept)"

text \<open>The found flag and the length of the ancestor chain of a result.\<close>

abbreviation found :: "sval \<times> bool \<times> sval list \<Rightarrow> bool" where
  "found r \<equiv> fst (snd r)"

abbreviation depth :: "sval \<times> bool \<times> sval list \<Rightarrow> nat" where
  "depth r \<equiv> length (snd (snd r))"

section \<open>Segmentation maps\<close>







section \<open>Bounding boxes\<close>











section \<open>Polygons\<close>














section \<open>Properties\<close>

subsection \<open>Finite trees and the classifier\<close>

text \<open>An element of a list or tuple is smaller than it, so it is never the list itself.\<close>

lemma no_self_element: "x \<in> set xs \<Longrightarrow> x \<noteq> PList xs \<and> x \<noteq> PTuple xs"
proof -
  assume "x \<in> set xs"
  then have "size x < Suc (size_list size xs)"
    by (induction xs) auto
  then show ?thesis by auto
qed

lemma estimate_array:
  "estimate_normalization_type (PArray a) = Inr (''array['' @ kind_name (kind (dtype a)) @ '']'')"
  by (simp add: estimate_normalization_type_def nonempty_info_to_type_str_def)

lemma wrapper_tag:
  "estimate_norm_type_in valid arg v = Inr t
   \<Longrightarrow> estimate_normalization_type v = Inr t \<and> t \<in> set valid"
  by (auto simp: estimate_norm_type_in_def assert_is_of_norm_type_def
      split: sum.splits if_splits)


subsection \<open>Heatmaps of empty inputs\<close>

text \<open>
  C2, as the code has it. \<^verbatim>\<open>normalize_heatmaps([], shapes=None)\<close> returns \<^verbatim>\<open>None\<close>.
  \<^verbatim>\<open>[[], []]\<close> is classified as the nested-empty tag \<open>iterable-iterable[empty]\<close>,
  which is not among the six tags of heatmaps: \<^verbatim>\<open>normalize_heatmaps([[], []],
  shapes=None)\<close> fails the assertion of \<^verbatim>\<open>_assert_is_of_norm_type\<close>.
\<close>

theorem empty_heatmaps_inputs:
  "normalize_heatmaps (PList []) PNone = Inr PNone
   \<and> estimate_normalization_type (PList [PList [], PList []]) = Inr ''iterable-iterable[empty]''
   \<and> normalize_heatmaps (PList [PList [], PList []]) PNone
       = Inl (UnknownDatatype ''heatmaps'' heatmaps_types ''iterable-iterable[empty]'')"
  by code_simp

text \<open>C2 as stated fails: the second call does not return \<^verbatim>\<open>None\<close>.\<close>

theorem nested_empty_heatmaps_counterexample:
  "normalize_heatmaps (PList [PList [], PList []]) PNone \<noteq> Inr PNone"
  by code_simp

subsection \<open>The number of shapes\<close>

lemma keypoints_array_tag:
  assumes "kind (dtype a) \<in> {CHR ''f'', CHR ''i'', CHR ''u''}"
  shows "estimate_keypoints_norm_type (PArray a)
           = Inr (''array['' @ kind_name (kind (dtype a)) @ '']'')"
    and "''array['' @ kind_name (kind (dtype a)) @ '']''
           \<in> set [''array[float]'', ''array[int]'', ''array[uint]'']"
    and "''array['' @ kind_name (kind (dtype a)) @ '']'' \<noteq> ''None''"
  using assms
  by (auto simp: estimate_keypoints_norm_type_def estimate_norm_type_in_def estimate_array
      assert_is_of_norm_type_def keypoints_types_def kind_name_def)

text \<open>
  C4. A float, int or uint array of shape \<open>(3, 5, 2)\<close> with a list of two shape tuples:
  \<^verbatim>\<open>normalize_keypoints\<close> raises the error of \<^verbatim>\<open>_assert_exactly_n_shapes\<close> whose
  message is formatted from the required count 3 and the actual count 2; with
  \<^verbatim>\<open>shapes=None\<close> it raises the error whose message says that \<^verbatim>\<open>shapes\<close> was
  \<^verbatim>\<open>None\<close>, with the required count 3.
\<close>

theorem keypoints_shape_count_enforced:
  assumes "shape a = [3, 5, 2]"
    and "kind (dtype a) \<in> {CHR ''f'', CHR ''i'', CHR ''u''}"
    and "is_tuple s1" and "is_tuple s2"
  shows "normalize_keypoints cast (PArray a) (PList [s1, s2])
           = Inl (ShapesCount (''array['' @ kind_name (kind (dtype a)) @ '']'')
                    ''List[KeypointsOnImage]'' 3 2)
         \<and> normalize_keypoints cast (PArray a) PNone
           = Inl (ShapesNone (''array['' @ kind_name (kind (dtype a)) @ '']'')
                    ''List[KeypointsOnImage]'' 3)"
proof -
  have pre: "preprocess_shapes (PList [s1, s2]) = Inr (Some [s1, s2])"
    using assms(3,4) by (simp add: preprocess_shapes_def then_do_def)
  have pre0: "preprocess_shapes PNone = Inr None"
    by (simp add: preprocess_shapes_def)
  note tag = keypoints_array_tag[OF assms(2)]
  have len: "py_len (PArray a) = Inr 3"
    using assms(1) by simp
  show ?thesis
    unfolding normalize_keypoints_def pre pre0 tag(1)
    using tag(2,3) len
    by (simp add: then_do_def assert_exactly_n_shapes_def)
qed

theorem keypoints_shape_count_enforced_witness:
  "shape \<lparr>shape = [3, 5, 2], dtype = \<lparr>kind = CHR ''i'', itemsize = 4\<rparr>,
          elems = replicate 30 0\<rparr> = [3, 5, 2]
   \<and> normalize_keypoints (\<lambda>d x. x)
        (PArray \<lparr>shape = [3, 5, 2], dtype = \<lparr>kind = CHR ''i'', itemsize = 4\<rparr>,
                 elems = replicate 30 0\<rparr>)
        (PList [PTuple [PInt 8, PInt 8, PInt 3], PTuple [PInt 8, PInt 8, PInt 3]])
       = Inl (ShapesCount ''array[int]'' ''List[KeypointsOnImage]'' 3 2)
   \<and> normalize_keypoints (\<lambda>d x. x)
        (PArray \<lparr>shape = [3, 5, 2], dtype = \<lparr>kind = CHR ''i'', itemsize = 4\<rparr>,
                 elems = replicate 30 0\<rparr>)
        PNone
       = Inl (ShapesNone ''array[int]'' ''List[KeypointsOnImage]'' 3)"
  using keypoints_shape_count_enforced[of
      "\<lparr>shape = [3, 5, 2], dtype = \<lparr>kind = CHR ''i'', itemsize = 4\<rparr>, elems = replicate 30 0\<rparr>"
      "PTuple [PInt 8, PInt 8, PInt 3]" "PTuple [PInt 8, PInt 8, PInt 3]" "\<lambda>d x. x"]
  by (simp add: kind_name_def)

subsection \<open>The length the inverse asserts\<close>

text \<open>
  The array branch of \<^verbatim>\<open>invert_normalize_keypoints\<close> asserts
  \<^verbatim>\<open>len(keypoints) == 1\<close>: every other length fails the assertion.
\<close>

lemma invert_keypoints_array_needs_one:
  assumes "estimate_keypoints_norm_type old = Inr t"
    and "t \<in> set [''array[float]'', ''array[int]'', ''array[uint]'']"
    and "py_len kps = Inr n" and "n \<noteq> 1"
  shows "invert_normalize_keypoints cast kps old = Inl AssertionError"
  using assms
  by (auto simp: invert_normalize_keypoints_def then_do_def assert_that_def)

text \<open>
  C3, at a batch of three. \<^verbatim>\<open>normalize_keypoints\<close> turns an array of shape
  \<open>(3, 1, 2)\<close> and three shapes into three \<^verbatim>\<open>KeypointsOnImage\<close>;
  \<^verbatim>\<open>invert_normalize_keypoints\<close>, given these three and the array, fails its assertion
  \<^verbatim>\<open>len(keypoints) == 1\<close>. The heatmap branch asserts \<^verbatim>\<open>heatmaps_old.shape[0]\<close>
  in the same place.
\<close>

theorem invert_keypoints_batch_of_three:
  "normalize_keypoints (\<lambda>d x. x)
     (PArray \<lparr>shape = [3, 1, 2], dtype = \<lparr>kind = CHR ''i'', itemsize = 4\<rparr>,
              elems = [1, 2, 3, 4, 5, 6]\<rparr>)
     (PList [PTuple [PInt 8, PInt 8], PTuple [PInt 8, PInt 8], PTuple [PInt 8, PInt 8]])
   = Inr (PList
       [KeypointsOnImage (PList [Keypoint (PFloat 1) (PFloat 2)]) (PTuple [PInt 8, PInt 8]),
        KeypointsOnImage (PList [Keypoint (PFloat 3) (PFloat 4)]) (PTuple [PInt 8, PInt 8]),
        KeypointsOnImage (PList [Keypoint (PFloat 5) (PFloat 6)]) (PTuple [PInt 8, PInt 8])])
   \<and> invert_normalize_keypoints (\<lambda>d x. x)
       (PList
         [KeypointsOnImage (PList [Keypoint (PFloat 1) (PFloat 2)]) (PTuple [PInt 8, PInt 8]),
          KeypointsOnImage (PList [Keypoint (PFloat 3) (PFloat 4)]) (PTuple [PInt 8, PInt 8]),
          KeypointsOnImage (PList [Keypoint (PFloat 5) (PFloat 6)]) (PTuple [PInt 8, PInt 8])])
       (PArray \<lparr>shape = [3, 1, 2], dtype = \<lparr>kind = CHR ''i'', itemsize = 4\<rparr>,
                elems = [1, 2, 3, 4, 5, 6]\<rparr>)
     = Inl AssertionError"
  by code_simp

subsection \<open>Images\<close>

lemma concat_chunks:
  "length es = m * n \<Longrightarrow> concat (map (\<lambda>j. take n (drop (j * n) es)) [0..<m]) = es"
proof (induction m arbitrary: es)
  case 0
  then show ?case by simp
next
  case (Suc m)
  have len: "length (drop n es) = m * n" using Suc.prems by simp
  have "concat (map (\<lambda>j. take n (drop (j * n) es)) [0..<Suc m])
        = take n es @ concat (map (\<lambda>j. take n (drop (Suc j * n) es)) [0..<m])"
    by (simp only: upt_conv_Cons[of 0 "Suc m"] map_Suc_upt[symmetric]) (simp add: comp_def)
  also have "(\<lambda>j. take n (drop (Suc j * n) es)) = (\<lambda>j. take n (drop (j * n) (drop n es)))"
    by (simp add: add.commute)
  also have "concat (map (\<lambda>j. take n (drop (j * n) (drop n es))) [0..<m]) = drop n es"
    using Suc.IH[OF len] .
  finally show ?case by simp
qed

lemma prod_list_split:
  "k < length xs \<Longrightarrow> prod_list xs = prod_list (take k xs) * (xs ! k) * prod_list (drop (Suc k) xs)"
proof -
  assume "k < length xs"
  then have "xs = take k xs @ xs ! k # drop (Suc k) xs" by (rule id_take_nth_drop)
  then have "prod_list xs = prod_list (take k xs @ xs ! k # drop (Suc k) xs)" by simp
  then show ?thesis by (simp add: mult.assoc)
qed

lemma index0_at_unit_axis:
  assumes "well_formed a" and "k < length (shape a)" and "shape a ! k = 1"
  shows "index0_at k a = Inr (a\<lparr>shape := take k (shape a) @ drop (Suc k) (shape a)\<rparr>)"
proof -
  let ?outer = "prod_list (take k (shape a))"
  let ?inner = "prod_list (drop (Suc k) (shape a))"
  have "length (elems a) = ?outer * ?inner"
    using assms prod_list_split[OF assms(2)] by (simp add: well_formed_def)
  then have "concat (map (\<lambda>j. take ?inner (drop (j * ?inner) (elems a))) [0..<?outer]) = elems a"
    by (rule concat_chunks)
  then show ?thesis
    using assms(2,3) by (simp add: index0_at_def Let_def)
qed

lemma normalize_images_array:
  "normalize_images (PArray a)
     = Inr (PArray (a\<lparr>shape := (if ndim a = 2 then 1 # shape a @ [1]
                                  else if ndim a = 3 then shape a @ [1] else shape a)\<rparr>))"
  by (simp add: normalize_images_def)

lemma invert_images_array:
  assumes "well_formed a"
  shows "invert_normalize_images
           (PArray (a\<lparr>shape := (if ndim a = 2 then 1 # shape a @ [1]
                                 else if ndim a = 3 then shape a @ [1] else shape a)\<rparr>))
           (PArray a) = Inr (PArray a)"
proof -
  consider (two) "ndim a = 2" | (three) "ndim a = 3" | (other) "ndim a \<noteq> 2" "ndim a \<noteq> 3"
    by blast
  then show ?thesis
  proof cases
    case two
    then obtain h w where s: "shape a = [h, w]"
      by (cases "shape a"; cases "tl (shape a)"; cases "tl (tl (shape a))") (auto simp: ndim_def)
    let ?n = "a\<lparr>shape := [1, h, w, 1]\<rparr>"
    have wfn: "well_formed ?n" using assms s by (simp add: well_formed_def)
    have i0: "index0_at 0 ?n = Inr (a\<lparr>shape := [h, w, 1]\<rparr>)"
      using index0_at_unit_axis[OF wfn, of 0] by simp
    have wfb: "well_formed (a\<lparr>shape := [h, w, 1]\<rparr>)" using assms s by (simp add: well_formed_def)
    have i2: "index0_at 2 (a\<lparr>shape := [h, w, 1]\<rparr>) = Inr (a\<lparr>shape := [h, w]\<rparr>)"
      using index0_at_unit_axis[OF wfb, of 2] by simp
    have "a\<lparr>shape := [h, w]\<rparr> = a" using s by simp
    then show ?thesis
      using two s i0 i2[unfolded numeral_2_eq_2]
      by (simp add: invert_normalize_images_def then_do_def assert_that_def ndim_def)
  next
    case three
    then obtain n h w where s: "shape a = [n, h, w]"
      by (cases "shape a"; cases "tl (shape a)"; cases "tl (tl (shape a))";
          cases "tl (tl (tl (shape a)))") (auto simp: ndim_def)
    have wfn: "well_formed (a\<lparr>shape := [n, h, w, 1]\<rparr>)" using assms s by (simp add: well_formed_def)
    have i3: "index0_at 3 (a\<lparr>shape := [n, h, w, 1]\<rparr>) = Inr (a\<lparr>shape := [n, h, w]\<rparr>)"
      using index0_at_unit_axis[OF wfn, of 3] by simp
    have "a\<lparr>shape := [n, h, w]\<rparr> = a" using s by simp
    then show ?thesis
      using three s i3[unfolded numeral_3_eq_3]
      by (simp add: invert_normalize_images_def then_do_def assert_that_def ndim_def)
  next
    case other
    then show ?thesis
      by (simp add: invert_normalize_images_def then_do_def)
  qed
qed

lemma map_err_Inr:
  "(\<And>x. x \<in> set xs \<Longrightarrow> f x = Inr (g x)) \<Longrightarrow> map_err f xs = Inr (map g xs)"
  by (induction xs) auto

lemma normalize_images_list:
  assumes "list_all (\<lambda>b. ndim b \<in> {2, 3}) bs"
  shows "normalize_images (PList (map PArray bs)) = Inr (PList (map (\<lambda>b. PArray (add_channel b)) bs))"
proof -
  have "map_err (\<lambda>image.
            then_do (py_ndim image) (\<lambda>d.
              if d = 2 then
                (case image of
                   PArray a \<Rightarrow> Inr (PArray (a\<lparr>shape := shape a @ [1]\<rparr>))
                 | _ \<Rightarrow> Inl AttributeError)
              else then_do (assert_that (d = 3)) (\<lambda>_. Inr image))) (map PArray bs)
        = Inr (map (\<lambda>v. case v of PArray b \<Rightarrow> PArray (add_channel b) | _ \<Rightarrow> v) (map PArray bs))"
    using assms
    by (intro map_err_Inr) (auto simp: then_do_def assert_that_def add_channel_def list_all_iff)
  then show ?thesis
    by (simp add: normalize_images_def then_do_def comp_def)
qed

lemma invert_one_image:
  assumes "well_formed b" and "ndim b \<in> {2, 3}"
  shows "then_do (py_ndim (PArray b)) (\<lambda>d_old.
              if d_old = 2 then
                then_do (py_shape_at (PArray (add_channel b)) 2) (\<lambda>n2.
                then_do (assert_that (n2 = 1)) (\<lambda>_.
                then_do (the_ndarray (PArray (add_channel b))) (\<lambda>a.
                then_do (index0_at 2 a) (\<lambda>c. Inr (PArray c)))))
              else
                then_do (py_ndim (PArray (add_channel b))) (\<lambda>d.
                then_do (assert_that (d = 3)) (\<lambda>_.
                then_do (assert_that (d_old = 3)) (\<lambda>_. Inr (PArray (add_channel b))))))
         = Inr (PArray b)"
proof (cases "ndim b = 2")
  case True
  then obtain h w where s: "shape b = [h, w]"
    by (cases "shape b"; cases "tl (shape b)"; cases "tl (tl (shape b))") (auto simp: ndim_def)
  have wfb: "well_formed (b\<lparr>shape := [h, w, 1]\<rparr>)" using assms s by (simp add: well_formed_def)
  have i2: "index0_at 2 (b\<lparr>shape := [h, w, 1]\<rparr>) = Inr (b\<lparr>shape := [h, w]\<rparr>)"
    using index0_at_unit_axis[OF wfb, of 2] by simp
  have "b\<lparr>shape := [h, w]\<rparr> = b" using s by simp
  then show ?thesis
    using True s i2 by (simp add: then_do_def assert_that_def add_channel_def ndim_def)
next
  case False
  then show ?thesis
    using assms(2) by (simp add: then_do_def assert_that_def add_channel_def)
qed

lemma invert_images_list:
  assumes "list_all (\<lambda>b. well_formed b \<and> ndim b \<in> {2, 3}) bs"
  shows "invert_normalize_images (PList (map (\<lambda>b. PArray (add_channel b)) bs)) (PList (map PArray bs))
         = Inr (PList (map PArray bs))"
proof -
  have z: "zip (map (\<lambda>b. PArray (add_channel b)) bs) (map PArray bs)
           = map (\<lambda>b. (PArray (add_channel b), PArray b)) bs"
    by (induction bs) auto
  have "map_err (\<lambda>(image, image_old).
            then_do (py_ndim image_old) (\<lambda>d_old.
              if d_old = 2 then
                then_do (py_shape_at image 2) (\<lambda>n2.
                then_do (assert_that (n2 = 1)) (\<lambda>_.
                then_do (the_ndarray image) (\<lambda>a.
                then_do (index0_at 2 a) (\<lambda>c. Inr (PArray c)))))
              else
                then_do (py_ndim image) (\<lambda>d.
                then_do (assert_that (d = 3)) (\<lambda>_.
                then_do (assert_that (d_old = 3)) (\<lambda>_. Inr image)))))
            (map (\<lambda>b. (PArray (add_channel b), PArray b)) bs)
        = Inr (map snd (map (\<lambda>b. (PArray (add_channel b), PArray b)) bs))"
    using assms
    by (intro map_err_Inr) (auto simp: list_all_iff invert_one_image simp del: py_ndim.simps py_shape_at.simps the_ndarray.simps)
  then show ?thesis
    by (simp add: invert_normalize_images_def then_do_def z comp_def)
qed

lemma invert_images_given_2d:
  assumes "ndim a = 2" and "well_formed g" and "shape g = [1, h, w, 1]"
  shows "invert_normalize_images (PArray g) (PArray a) = Inr (PArray (g\<lparr>shape := [h, w]\<rparr>))"
proof -
  have i0: "index0_at 0 g = Inr (g\<lparr>shape := [h, w, 1]\<rparr>)"
    using index0_at_unit_axis[OF assms(2), of 0] assms(3) by simp
  have wfb: "well_formed (g\<lparr>shape := [h, w, 1]\<rparr>)"
    using assms(2,3) by (simp add: well_formed_def)
  have i2: "index0_at 2 (g\<lparr>shape := [h, w, 1]\<rparr>) = Inr (g\<lparr>shape := [h, w]\<rparr>)"
    using index0_at_unit_axis[OF wfb, of 2] by simp
  show ?thesis
    using assms(1,3) i0 i2[unfolded numeral_2_eq_2]
    by (simp add: invert_normalize_images_def then_do_def assert_that_def ndim_def)
qed

lemma invert_images_given_3d:
  assumes "ndim a = 3" and "well_formed g" and "shape g = [n, h, w, 1]"
  shows "invert_normalize_images (PArray g) (PArray a) = Inr (PArray (g\<lparr>shape := [n, h, w]\<rparr>))"
proof -
  have i3: "index0_at 3 g = Inr (g\<lparr>shape := [n, h, w]\<rparr>)"
    using index0_at_unit_axis[OF assms(2), of 3] assms(3) by simp
  show ?thesis
    using assms(1,3) i3[unfolded numeral_3_eq_3]
    by (simp add: invert_normalize_images_def then_do_def assert_that_def ndim_def)
qed

lemma invert_images_given_other:
  assumes "ndim a \<noteq> 2" and "ndim a \<noteq> 3"
  shows "invert_normalize_images img (PArray a) = Inr img"
  using assms by (simp add: invert_normalize_images_def then_do_def)

lemma invert_images_given_none:
  "invert_normalize_images img PNone = (if img = PNone then Inr PNone else Inl AssertionError)"
  by (simp add: invert_normalize_images_def then_do_def assert_that_def)

lemma invert_given_image:
  assumes "well_formed g" and "ndim g = 3"
    and "ndim old = 2 \<and> shape g ! 2 = 1 \<or> ndim old = 3"
  shows "then_do (py_ndim (PArray old)) (\<lambda>d_old.
              if d_old = 2 then
                then_do (py_shape_at (PArray g) 2) (\<lambda>n2.
                then_do (assert_that (n2 = 1)) (\<lambda>_.
                then_do (the_ndarray (PArray g)) (\<lambda>a.
                then_do (index0_at 2 a) (\<lambda>c. Inr (PArray c)))))
              else
                then_do (py_ndim (PArray g)) (\<lambda>d.
                then_do (assert_that (d = 3)) (\<lambda>_.
                then_do (assert_that (d_old = 3)) (\<lambda>_. Inr (PArray g)))))
         = Inr (PArray (if ndim old = 2 then g\<lparr>shape := take 2 (shape g)\<rparr> else g))"
proof (cases "ndim old = 2")
  case True
  then have u: "shape g ! 2 = 1" using assms(3) by simp
  have l: "2 < length (shape g)" using assms(2) by (simp add: ndim_def)
  have "index0_at 2 g = Inr (g\<lparr>shape := take 2 (shape g) @ drop (Suc 2) (shape g)\<rparr>)"
    by (rule index0_at_unit_axis[OF assms(1) l u])
  then have i2: "index0_at 2 g = Inr (g\<lparr>shape := take 2 (shape g)\<rparr>)"
    using assms(2) by (simp add: ndim_def)
  show ?thesis
    using True u l i2 by (simp add: then_do_def assert_that_def)
next
  case False
  then show ?thesis
    using assms(2,3) by (simp add: then_do_def assert_that_def)
qed

lemma invert_images_given_list:
  assumes "list_all2 (\<lambda>g old. well_formed g \<and> ndim g = 3
                         \<and> (ndim old = 2 \<and> shape g ! 2 = 1 \<or> ndim old = 3)) gs olds"
  shows "invert_normalize_images (PList (map PArray gs)) (PList (map PArray olds))
         = Inr (PList (map (\<lambda>(g, old). PArray (if ndim old = 2 then g\<lparr>shape := take 2 (shape g)\<rparr>
                                                else g)) (zip gs olds)))"
proof -
  have z: "zip (map PArray gs) (map PArray olds) = map (\<lambda>(g, old). (PArray g, PArray old)) (zip gs olds)"
    by (simp add: zip_map_map)
  have "map_err (\<lambda>(image, image_old).
            then_do (py_ndim image_old) (\<lambda>d_old.
              if d_old = 2 then
                then_do (py_shape_at image 2) (\<lambda>n2.
                then_do (assert_that (n2 = 1)) (\<lambda>_.
                then_do (the_ndarray image) (\<lambda>a.
                then_do (index0_at 2 a) (\<lambda>c. Inr (PArray c)))))
              else
                then_do (py_ndim image) (\<lambda>d.
                then_do (assert_that (d = 3)) (\<lambda>_.
                then_do (assert_that (d_old = 3)) (\<lambda>_. Inr image)))))
            (map (\<lambda>(g, old). (PArray g, PArray old)) (zip gs olds))
        = Inr (map (\<lambda>(g, old). PArray (if ndim old = 2 then g\<lparr>shape := take 2 (shape g)\<rparr>
                                                else g)) (zip gs olds))"
    using assms
  proof (induction gs olds rule: list_all2_induct)
    case Nil
    then show ?case by simp
  next
    case (Cons g gs old olds)
    have "then_do (py_ndim (PArray old)) (\<lambda>d_old.
              if d_old = 2 then
                then_do (py_shape_at (PArray g) 2) (\<lambda>n2.
                then_do (assert_that (n2 = 1)) (\<lambda>_.
                then_do (the_ndarray (PArray g)) (\<lambda>a.
                then_do (index0_at 2 a) (\<lambda>c. Inr (PArray c)))))
              else
                then_do (py_ndim (PArray g)) (\<lambda>d.
                then_do (assert_that (d = 3)) (\<lambda>_.
                then_do (assert_that (d_old = 3)) (\<lambda>_. Inr (PArray g)))))
         = Inr (PArray (if ndim old = 2 then g\<lparr>shape := take 2 (shape g)\<rparr> else g))"
      using Cons.hyps(1) by (intro invert_given_image) auto
    then show ?case using Cons.IH
      by (simp del: py_ndim.simps py_shape_at.simps the_ndarray.simps)
  qed
  then show ?thesis
    by (simp add: invert_normalize_images_def then_do_def z)
qed


text \<open>
  C5, as the code has it. \<^verbatim>\<open>normalize_images\<close> leaves the elements alone and changes
  the shape only: a 3-d array gets a trailing axis of length 1, a 2-d array gets a
  leading axis of length 1 as well as the trailing one, every other array is returned
  as it is; in a list, each 2-d image gets the trailing axis and each 3-d image stays,
  and the list keeps its length and order. \<^verbatim>\<open>invert_normalize_images\<close> takes exactly
  these axes away from the images it is given, whatever their elements, and keeps those
  elements: from a given array of shape \<open>(1, h, w, 1)\<close> when the original was 2-d, from
  one of shape \<open>(n, h, w, 1)\<close> when it was 3-d; it returns what it is given when the
  original was an array of another rank; in a list it takes the trailing axis from each
  given 3-d image whose original was 2-d and keeps each given 3-d image whose original
  was 3-d. Given anything but \<^verbatim>\<open>None\<close> for the original \<^verbatim>\<open>None\<close> it fails its
  assertion. So the result of the forward pass goes back to the original.
\<close>

theorem normalize_images_axes:
  assumes "well_formed a" and "list_all (\<lambda>b. well_formed b \<and> ndim b \<in> {2, 3}) bs"
    and "well_formed g"
  shows "normalize_images (PArray a)
           = Inr (PArray (a\<lparr>shape := (if ndim a = 2 then 1 # shape a @ [1]
                                        else if ndim a = 3 then shape a @ [1] else shape a)\<rparr>))
       \<and> invert_normalize_images
           (PArray (a\<lparr>shape := (if ndim a = 2 then 1 # shape a @ [1]
                                 else if ndim a = 3 then shape a @ [1] else shape a)\<rparr>))
           (PArray a) = Inr (PArray a)
       \<and> normalize_images (PList (map PArray bs))
           = Inr (PList (map (\<lambda>b. PArray (add_channel b)) bs))
       \<and> invert_normalize_images (PList (map (\<lambda>b. PArray (add_channel b)) bs))
           (PList (map PArray bs)) = Inr (PList (map PArray bs))
       \<and> normalize_images PNone = Inr PNone
       \<and> invert_normalize_images PNone PNone = Inr PNone
       \<and> (ndim a = 2 \<and> shape g = [1, h, w, 1]
            \<longrightarrow> invert_normalize_images (PArray g) (PArray a)
                = Inr (PArray (g\<lparr>shape := [h, w]\<rparr>)))
       \<and> (ndim a = 3 \<and> shape g = [n, h, w, 1]
            \<longrightarrow> invert_normalize_images (PArray g) (PArray a)
                = Inr (PArray (g\<lparr>shape := [n, h, w]\<rparr>)))
       \<and> (ndim a \<noteq> 2 \<and> ndim a \<noteq> 3
            \<longrightarrow> invert_normalize_images img (PArray a) = Inr img)
       \<and> (list_all2 (\<lambda>g old. well_formed g \<and> ndim g = 3
                              \<and> (ndim old = 2 \<and> shape g ! 2 = 1 \<or> ndim old = 3)) gs olds
            \<longrightarrow> invert_normalize_images (PList (map PArray gs)) (PList (map PArray olds))
                = Inr (PList (map (\<lambda>(g, old). PArray (if ndim old = 2
                                                       then g\<lparr>shape := take 2 (shape g)\<rparr>
                                                       else g)) (zip gs olds))))
       \<and> (img \<noteq> PNone \<longrightarrow> invert_normalize_images img PNone = Inl AssertionError)"
proof -
  have l: "list_all (\<lambda>b. ndim b \<in> {2, 3}) bs"
    using assms(2) by (simp add: list_all_iff)
  have n: "normalize_images PNone = Inr PNone"
    by (simp add: normalize_images_def)
  have i: "invert_normalize_images PNone PNone = Inr PNone"
    by (simp add: invert_normalize_images_def then_do_def assert_that_def)
  have g2: "ndim a = 2 \<and> shape g = [1, h, w, 1]
            \<longrightarrow> invert_normalize_images (PArray g) (PArray a)
                = Inr (PArray (g\<lparr>shape := [h, w]\<rparr>))"
    using invert_images_given_2d[OF _ assms(3)] by blast
  have g3: "ndim a = 3 \<and> shape g = [n, h, w, 1]
            \<longrightarrow> invert_normalize_images (PArray g) (PArray a)
                = Inr (PArray (g\<lparr>shape := [n, h, w]\<rparr>))"
    using invert_images_given_3d[OF _ assms(3)] by blast
  have go: "ndim a \<noteq> 2 \<and> ndim a \<noteq> 3
            \<longrightarrow> invert_normalize_images img (PArray a) = Inr img"
    using invert_images_given_other by blast
  have gl: "list_all2 (\<lambda>g old. well_formed g \<and> ndim g = 3
                              \<and> (ndim old = 2 \<and> shape g ! 2 = 1 \<or> ndim old = 3)) gs olds
            \<longrightarrow> invert_normalize_images (PList (map PArray gs)) (PList (map PArray olds))
                = Inr (PList (map (\<lambda>(g, old). PArray (if ndim old = 2
                                                       then g\<lparr>shape := take 2 (shape g)\<rparr>
                                                       else g)) (zip gs olds)))"
    using invert_images_given_list by blast
  have gn: "img \<noteq> PNone \<longrightarrow> invert_normalize_images img PNone = Inl AssertionError"
    by (simp add: invert_images_given_none)
  show ?thesis
    using normalize_images_array[of a] invert_images_array[OF assms(1)]
      normalize_images_list[OF l] invert_images_list[OF assms(2)] n i g2 g3 go gl gn
    by (intro conjI) assumption+
qed

theorem normalize_images_axes_witness:
  "well_formed \<lparr>shape = [2, 3], dtype = \<lparr>kind = CHR ''u'', itemsize = 1\<rparr>,
                elems = [1, 2, 3, 4, 5, 6]\<rparr>
   \<and> well_formed \<lparr>shape = [1, 2, 3, 1], dtype = \<lparr>kind = CHR ''u'', itemsize = 1\<rparr>,
                elems = [9, 8, 7, 6, 5, 4]\<rparr>
   \<and> normalize_images
        (PArray \<lparr>shape = [2, 3], dtype = \<lparr>kind = CHR ''u'', itemsize = 1\<rparr>,
                 elems = [1, 2, 3, 4, 5, 6]\<rparr>)
       = Inr (PArray \<lparr>shape = [1, 2, 3, 1], dtype = \<lparr>kind = CHR ''u'', itemsize = 1\<rparr>,
                      elems = [1, 2, 3, 4, 5, 6]\<rparr>)
   \<and> invert_normalize_images
        (PArray \<lparr>shape = [1, 2, 3, 1], dtype = \<lparr>kind = CHR ''u'', itemsize = 1\<rparr>,
                 elems = [1, 2, 3, 4, 5, 6]\<rparr>)
        (PArray \<lparr>shape = [2, 3], dtype = \<lparr>kind = CHR ''u'', itemsize = 1\<rparr>,
                 elems = [1, 2, 3, 4, 5, 6]\<rparr>)
       = Inr (PArray \<lparr>shape = [2, 3], dtype = \<lparr>kind = CHR ''u'', itemsize = 1\<rparr>,
                      elems = [1, 2, 3, 4, 5, 6]\<rparr>)
   \<and> invert_normalize_images
        (PArray \<lparr>shape = [1, 2, 3, 1], dtype = \<lparr>kind = CHR ''u'', itemsize = 1\<rparr>,
                 elems = [9, 8, 7, 6, 5, 4]\<rparr>)
        (PArray \<lparr>shape = [2, 3], dtype = \<lparr>kind = CHR ''u'', itemsize = 1\<rparr>,
                 elems = [1, 2, 3, 4, 5, 6]\<rparr>)
       = Inr (PArray \<lparr>shape = [2, 3], dtype = \<lparr>kind = CHR ''u'', itemsize = 1\<rparr>,
                      elems = [9, 8, 7, 6, 5, 4]\<rparr>)
   \<and> normalize_images
        (PList [PArray \<lparr>shape = [1, 2], dtype = \<lparr>kind = CHR ''u'', itemsize = 1\<rparr>,
                        elems = [7, 8]\<rparr>])
       = Inr (PList [PArray \<lparr>shape = [1, 2, 1], dtype = \<lparr>kind = CHR ''u'', itemsize = 1\<rparr>,
                             elems = [7, 8]\<rparr>])
   \<and> invert_normalize_images
        (PList [PArray \<lparr>shape = [1, 2, 1], dtype = \<lparr>kind = CHR ''u'', itemsize = 1\<rparr>,
                        elems = [3, 4]\<rparr>])
        (PList [PArray \<lparr>shape = [1, 2], dtype = \<lparr>kind = CHR ''u'', itemsize = 1\<rparr>,
                        elems = [7, 8]\<rparr>])
       = Inr (PList [PArray \<lparr>shape = [1, 2], dtype = \<lparr>kind = CHR ''u'', itemsize = 1\<rparr>,
                             elems = [3, 4]\<rparr>])"
  using normalize_images_axes[where
      a = "\<lparr>shape = [2, 3], dtype = \<lparr>kind = CHR ''u'', itemsize = 1\<rparr>,
            elems = [1, 2, 3, 4, 5, 6]\<rparr>"
      and bs = "[\<lparr>shape = [1, 2], dtype = \<lparr>kind = CHR ''u'', itemsize = 1\<rparr>, elems = [7, 8]\<rparr>]"
      and g = "\<lparr>shape = [1, 2, 3, 1], dtype = \<lparr>kind = CHR ''u'', itemsize = 1\<rparr>,
                elems = [9, 8, 7, 6, 5, 4]\<rparr>"
      and h = 2 and w = 3
      and gs = "[\<lparr>shape = [1, 2, 1], dtype = \<lparr>kind = CHR ''u'', itemsize = 1\<rparr>,
                  elems = [3, 4]\<rparr>]"
      and olds = "[\<lparr>shape = [1, 2], dtype = \<lparr>kind = CHR ''u'', itemsize = 1\<rparr>,
                    elems = [7, 8]\<rparr>]"]
  by (simp add: well_formed_def ndim_def add_channel_def)

text \<open>
  C5 as stated fails: a 2-d array of shape \<open>(2, 3)\<close> comes back with the shape
  \<open>(1, 2, 3, 1)\<close>, not with a trailing axis only.
\<close>

theorem normalize_images_2d_counterexample:
  "normalize_images
     (PArray \<lparr>shape = [2, 3], dtype = \<lparr>kind = CHR ''u'', itemsize = 1\<rparr>,
              elems = [1, 2, 3, 4, 5, 6]\<rparr>)
   = Inr (PArray \<lparr>shape = [1, 2, 3, 1], dtype = \<lparr>kind = CHR ''u'', itemsize = 1\<rparr>,
                  elems = [1, 2, 3, 4, 5, 6]\<rparr>)
   \<and> normalize_images
     (PArray \<lparr>shape = [2, 3], dtype = \<lparr>kind = CHR ''u'', itemsize = 1\<rparr>,
              elems = [1, 2, 3, 4, 5, 6]\<rparr>)
   \<noteq> Inr (PArray \<lparr>shape = [2, 3, 1], dtype = \<lparr>kind = CHR ''u'', itemsize = 1\<rparr>,
                  elems = [1, 2, 3, 4, 5, 6]\<rparr>)"
  by (simp add: normalize_images_def ndim_def)

subsection \<open>Restoring dtypes and merging\<close>


lemma restore_each_arrays:
  "restore_each cast (map Arr as) dt = Inr (map (\<lambda>a. Arr (restore_dtypes cast a dt)) as)"
  by (induction as) auto




lemma nested_unmerged_raises:
  assumes "restore_each cast xs dt = Inr ys" and "Lst zs \<in> set ys"
  shows "restore_dtype_and_merge cast (Lst xs) dt = Inl AttributeError"
proof -
  have "map_err the_array ys = Inl AttributeError"
    using assms(2)
  proof (induction ys)
    case Nil
    then show ?case by simp
  next
    case (Cons y ys)
    then show ?case by (cases y) (auto split: sum.splits)
  qed
  then show ?thesis using assms(1) by simp
qed













subsection \<open>The finder on stores\<close>

text \<open>The equations of the finder, in the shape of the source.\<close>

lemma find_None [simp]: "find_first_nonempty_st h SNone ps = Some (SNone, True, ps)"
  by (simp add: find_first_nonempty_st_def ffn_run.simps)

lemma find_Array [simp]: "find_first_nonempty_st h (SArray a) ps = Some (SArray a, True, ps)"
  by (simp add: find_first_nonempty_st_def ffn_run.simps)

lemma find_Str [simp]: "find_first_nonempty_st h (SStr s) ps = Some (SStr s, True, ps)"
  by (simp add: find_first_nonempty_st_def ffn_run.simps)

lemma find_Object [simp]: "find_first_nonempty_st h (SObject n) ps = Some (SObject n, True, ps)"
  by (simp add: find_first_nonempty_st_def ffn_run.simps)

lemma find_Seq:
  "find_first_nonempty_st h (SSeq p) ps =
     (if h p = [] then Some (SNone, False, ps)
      else if hd (h p) = SSeq p then Some (SSeq p, True, ps)
      else ffn_loop_st h (h p) (ps @ [SSeq p]) (SNone, False, ps))"
  unfolding find_first_nonempty_st_def ffn_loop_st_def
  by (subst ffn_run.simps) simp

lemma loop_Nil [simp]: "ffn_loop_st h [] chain d = Some d"
  unfolding ffn_loop_st_def by (subst ffn_run.simps) simp

lemma loop_Cons:
  "ffn_loop_st h (x # rest) chain d =
     Option.bind (find_first_nonempty_st h x chain) (\<lambda>r.
       if fst (snd r) then Some r
       else ffn_loop_st h rest chain (deeper d r))"
  unfolding find_first_nonempty_st_def ffn_loop_st_def deeper_def
  apply (subst ffn_run.simps)
  apply (cases "ffn_run h (Find x chain)")
   apply simp
  apply (simp split: prod.splits)
  done


lemma find_leaf:
  "(\<And>p. attr \<noteq> SSeq p) \<Longrightarrow> find_first_nonempty_st h attr ps = Some (attr, True, ps)"
  by (cases attr) auto

lemma loop_total:
  assumes "\<And>x. x \<in> set children \<Longrightarrow> find_first_nonempty_st h x chain \<noteq> None"
  shows "ffn_loop_st h children chain d \<noteq> None"
  using assms
proof (induction children arbitrary: d)
  case Nil
  then show ?case by simp
next
  case (Cons x rest)
  have "find_first_nonempty_st h x chain \<noteq> None"
    using Cons.prems by simp
  then obtain r where r: "find_first_nonempty_st h x chain = Some r"
    by blast
  have rest: "ffn_loop_st h rest chain (deeper d r) \<noteq> None"
    using Cons.IH Cons.prems by simp
  have "ffn_loop_st h (x # rest) chain d
        = (if fst (snd r) then Some r else ffn_loop_st h rest chain (deeper d r))"
    by (simp add: loop_Cons r)
  then show ?case
    using rest by (cases "fst (snd r)") simp_all
qed

lemma find_total:
  assumes "ranked h rank"
  shows "find_first_nonempty_st h attr ps \<noteq> None"
proof (cases "\<exists>p. attr = SSeq p")
  case False
  then have "find_first_nonempty_st h attr ps = Some (attr, True, ps)"
    by (intro find_leaf) blast
  then show ?thesis by simp
next
  case True
  then obtain p where attr: "attr = SSeq p" by blast
  have "find_first_nonempty_st h (SSeq p) ps \<noteq> None"
  proof (induction "rank p" arbitrary: p ps rule: less_induct)
    case less
    show ?case
    proof (cases "h p = [] \<or> hd (h p) = SSeq p")
      case True
      then show ?thesis by (auto simp: find_Seq)
    next
      case False
      have "find_first_nonempty_st h x (ps @ [SSeq p]) \<noteq> None" if "x \<in> set (h p)" for x
      proof (cases "\<exists>q. x = SSeq q")
        case True
        then obtain q where q: "x = SSeq q" by blast
        then have "rank q < rank p"
          using assms that False by (auto simp: ranked_def)
        then show ?thesis using less q by blast
      next
        case False
        then have "find_first_nonempty_st h x (ps @ [SSeq p]) = Some (x, True, ps @ [SSeq p])"
          by (intro find_leaf) blast
        then show ?thesis by simp
      qed
      then have "ffn_loop_st h (h p) (ps @ [SSeq p]) (SNone, False, ps) \<noteq> None"
        by (rule loop_total)
      then show ?thesis using False by (simp add: find_Seq)
    qed
  qed
  then show ?thesis by (simp add: attr)
qed

lemma loop_first_success:
  assumes "list_all2 (\<lambda>y r. find_first_nonempty_st h y chain = Some r \<and> \<not> fst (snd r)) pre res"
    and "find_first_nonempty_st h x chain = Some r" and "fst (snd r)"
  shows "ffn_loop_st h (pre @ x # rest) chain d = Some r"
  using assms
proof (induction pre res arbitrary: d rule: list_all2_induct)
  case Nil
  then show ?case by (simp add: loop_Cons)
next
  case (Cons y ys r' rs)
  then show ?case by (simp add: loop_Cons)
qed

lemma loop_all_fail:
  assumes "list_all2 (\<lambda>y r. find_first_nonempty_st h y chain = Some r \<and> \<not> fst (snd r)) children res"
  shows "ffn_loop_st h children chain d = Some (foldl deeper d res)"
  using assms
proof (induction children res arbitrary: d rule: list_all2_induct)
  case Nil
  then show ?case by simp
next
  case (Cons y ys r rs)
  then show ?case by (simp add: loop_Cons)
qed

lemma foldl_deeper_first_max:
  "\<exists>i<length (d # rs). (d # rs) ! i = foldl deeper d rs
      \<and> (\<forall>j<i. depth ((d # rs) ! j) < depth (foldl deeper d rs))
      \<and> (\<forall>j<length (d # rs). depth ((d # rs) ! j) \<le> depth (foldl deeper d rs))"
proof (induction rs arbitrary: d)
  case Nil
  then show ?case by simp
next
  case (Cons r rs)
  let ?m = "foldl deeper (deeper d r) rs"
  obtain i where i: "i < length (deeper d r # rs)" "(deeper d r # rs) ! i = ?m"
    "\<forall>j<i. depth ((deeper d r # rs) ! j) < depth ?m"
    "\<forall>j<length (deeper d r # rs). depth ((deeper d r # rs) ! j) \<le> depth ?m"
    using Cons.IH[of "deeper d r"] by blast
  have i3: "\<And>j. j < i \<Longrightarrow> depth ((deeper d r # rs) ! j) < depth ?m"
    using i(3) by blast
  have i4: "\<And>j. j < Suc (length rs) \<Longrightarrow> depth ((deeper d r # rs) ! j) \<le> depth ?m"
    using i(4) by simp
  show ?case
  proof (cases "depth r > depth d")
    case True
    then have dr: "deeper d r = r" by (simp add: deeper_def)
    have le: "depth r \<le> depth ?m" using i4[of 0] dr by simp
    have "Suc i < length (d # r # rs)" using i(1) by simp
    moreover have "(d # r # rs) ! Suc i = foldl deeper d (r # rs)" using i(2) dr by simp
    moreover have "\<forall>j<Suc i. depth ((d # r # rs) ! j) < depth (foldl deeper d (r # rs))"
    proof (intro allI impI)
      fix j assume "j < Suc i"
      then show "depth ((d # r # rs) ! j) < depth (foldl deeper d (r # rs))"
        using i3[of "j - 1"] dr True le by (cases j) auto
    qed
    moreover have "\<forall>j<length (d # r # rs). depth ((d # r # rs) ! j) \<le> depth (foldl deeper d (r # rs))"
    proof (intro allI impI)
      fix j assume "j < length (d # r # rs)"
      then show "depth ((d # r # rs) ! j) \<le> depth (foldl deeper d (r # rs))"
        using i4[of "j - 1"] dr True le by (cases j) auto
    qed
    ultimately show ?thesis by blast
  next
    case False
    then have dr: "deeper d r = d" by (simp add: deeper_def)
    have le: "depth d \<le> depth ?m" using i4[of 0] dr by simp
    show ?thesis
    proof (cases i)
      case 0
      then have m: "?m = d" using i(2) dr by simp
      have "(d # r # rs) ! 0 = foldl deeper d (r # rs)" using m dr by simp
      moreover have "\<forall>j<length (d # r # rs). depth ((d # r # rs) ! j) \<le> depth (foldl deeper d (r # rs))"
      proof (intro allI impI)
        fix j assume j: "j < length (d # r # rs)"
        show "depth ((d # r # rs) ! j) \<le> depth (foldl deeper d (r # rs))"
        proof (cases j)
          case 0
          then show ?thesis using le dr by simp
        next
          case (Suc k)
          show ?thesis
          proof (cases k)
            case 0
            then show ?thesis using Suc False m dr by simp
          next
            case (Suc l)
            then have "l < length rs" using j \<open>j = Suc k\<close> by simp
            then have "depth ((deeper d r # rs) ! Suc l) \<le> depth ?m" using i4[of "Suc l"] by simp
            then show ?thesis using \<open>j = Suc k\<close> Suc dr by simp
          qed
        qed
      qed
      ultimately show ?thesis by (intro exI[of _ 0]) simp
    next
      case (Suc i')
      have lt: "depth d < depth ?m" using i3[of 0] Suc dr by simp
      have "Suc i < length (d # r # rs)" using i(1) by simp
      moreover have "(d # r # rs) ! Suc i = foldl deeper d (r # rs)" using i(2) dr Suc by simp
      moreover have "\<forall>j<Suc i. depth ((d # r # rs) ! j) < depth (foldl deeper d (r # rs))"
      proof (intro allI impI)
        fix j assume j: "j < Suc i"
        show "depth ((d # r # rs) ! j) < depth (foldl deeper d (r # rs))"
        proof (cases j)
          case 0
          then show ?thesis using lt dr by simp
        next
          case (Suc k)
          show ?thesis
          proof (cases k)
            case 0
            then show ?thesis using Suc False lt dr by simp
          next
            case (Suc l)
            then have "Suc l < i" using j \<open>j = Suc k\<close> by simp
            then have "depth ((deeper d r # rs) ! Suc l) < depth ?m" using i3[of "Suc l"] by blast
            then show ?thesis using \<open>j = Suc k\<close> Suc dr by simp
          qed
        qed
      qed
      moreover have "\<forall>j<length (d # r # rs). depth ((d # r # rs) ! j) \<le> depth (foldl deeper d (r # rs))"
      proof (intro allI impI)
        fix j assume j: "j < length (d # r # rs)"
        show "depth ((d # r # rs) ! j) \<le> depth (foldl deeper d (r # rs))"
        proof (cases j)
          case 0
          then show ?thesis using le dr by simp
        next
          case (Suc k)
          show ?thesis
          proof (cases k)
            case 0
            then show ?thesis using Suc False le dr by simp
          next
            case (Suc l)
            then have "l < length rs" using j \<open>j = Suc k\<close> by simp
            then have "depth ((deeper d r # rs) ! Suc l) \<le> depth ?m" using i4[of "Suc l"] by simp
            then show ?thesis using \<open>j = Suc k\<close> Suc dr by simp
          qed
        qed
      qed
      ultimately show ?thesis by blast
    qed
  qed
qed

text \<open>A result never has a shorter chain than the call was given.\<close>

lemma run_depth:
  assumes "ffn_run h c = Some r"
  shows "case c of Find a ps \<Rightarrow> length ps \<le> depth r
         | Loop cs chain d \<Rightarrow> r = d \<or> length chain \<le> depth r"
proof (rule ffn_run.raw_induct[where P = "\<lambda>h c r. case c of Find a ps \<Rightarrow> length ps \<le> depth r
         | Loop cs chain d \<Rightarrow> r = d \<or> length chain \<le> depth r", OF _ assms], goal_cases)
  case (1 f h c r)
  show ?case
  proof (cases c)
    case (Find a ps)
    show ?thesis
    proof (cases a)
      case (SSeq p)
      show ?thesis
      proof (cases "h p = [] \<or> hd (h p) = SSeq p")
        case True
        then show ?thesis using 1(2) Find SSeq by (auto split: if_splits)
      next
        case False
        then have "f h (Loop (h p) (ps @ [a]) (SNone, False, ps)) = Some r"
          using 1(2) Find SSeq by simp
        from 1(1)[OF this] show ?thesis using Find by auto
      qed
    qed (use 1(2) Find in auto)
  next
    case (Loop cs chain d)
    show ?thesis
    proof (cases cs)
      case Nil
      then show ?thesis using 1(2) Loop by simp
    next
      case (Cons x rest)
      then obtain r1 where r1: "f h (Find x chain) = Some r1"
        and rest: "(if fst (snd r1) then Some r1
                    else if length (snd (snd d)) < depth r1 then f h (Loop rest chain r1)
                    else f h (Loop rest chain d)) = Some r"
        using 1(2) Loop by (auto simp: bind_eq_Some_conv split: prod.splits if_splits)
      have d1: "length chain \<le> depth r1" using 1(1)[OF r1] by simp
      show ?thesis
      proof (cases "fst (snd r1)")
        case True
        then show ?thesis using rest d1 Loop by simp
      next
        case False
        show ?thesis
        proof (cases "length (snd (snd d)) < depth r1")
          case True
          then have "f h (Loop rest chain r1) = Some r" using rest False by simp
          from 1(1)[OF this] show ?thesis using d1 Loop by auto
        next
          case nd: False
          then have "f h (Loop rest chain d) = Some r" using rest False by simp
          from 1(1)[OF this] show ?thesis using Loop by auto
        qed
      qed
    qed
  qed
qed

lemma find_depth:
  "find_first_nonempty_st h a ps = Some r \<Longrightarrow> length ps \<le> depth r"
  using run_depth[of h "Find a ps" r] by (simp add: find_first_nonempty_st_def)

lemma seq_first_success:
  assumes "h p = pre @ x # rest" and "hd (h p) \<noteq> SSeq p"
    and "list_all2 (\<lambda>y r. find_first_nonempty_st h y (parents @ [SSeq p]) = Some r \<and> \<not> found r) pre res"
    and "find_first_nonempty_st h x (parents @ [SSeq p]) = Some r" and "found r"
  shows "find_first_nonempty_st h (SSeq p) parents = Some r"
proof -
  have "h p \<noteq> []" using assms(1) by simp
  then have "find_first_nonempty_st h (SSeq p) parents
             = ffn_loop_st h (pre @ x # rest) (parents @ [SSeq p]) (SNone, False, parents)"
    using assms(1,2) by (simp add: find_Seq)
  then show ?thesis
    using loop_first_success[OF assms(3,4,5)] by simp
qed

lemma seq_all_fail:
  assumes "h p \<noteq> []" and "hd (h p) \<noteq> SSeq p"
    and "list_all2 (\<lambda>y r. find_first_nonempty_st h y (parents @ [SSeq p]) = Some r \<and> \<not> found r) (h p) res"
  shows "\<exists>i<length res. find_first_nonempty_st h (SSeq p) parents = Some (res ! i)
             \<and> (\<forall>j<i. depth (res ! j) < depth (res ! i))
             \<and> (\<forall>j<length res. depth (res ! j) \<le> depth (res ! i))"
proof -
  have len: "length res = length (h p)"
    using assms(3) by (simp add: list_all2_lengthD)
  then obtain r0 rs where res: "res = r0 # rs"
    using assms(1) by (cases res) auto
  have "find_first_nonempty_st h (hd (h p)) (parents @ [SSeq p]) = Some r0"
    using assms(1,3) res by (cases "h p") auto
  then have "length (parents @ [SSeq p]) \<le> depth r0" by (rule find_depth)
  then have d0: "deeper (SNone, False, parents) r0 = r0"
    by (simp add: deeper_def)
  have "find_first_nonempty_st h (SSeq p) parents
        = ffn_loop_st h (h p) (parents @ [SSeq p]) (SNone, False, parents)"
    using assms(1,2) by (simp add: find_Seq)
  also have "\<dots> = Some (foldl deeper (SNone, False, parents) res)"
    using assms(3) by (rule loop_all_fail)
  also have "foldl deeper (SNone, False, parents) res = foldl deeper r0 rs"
    using res d0 by simp
  finally have f: "find_first_nonempty_st h (SSeq p) parents = Some (foldl deeper r0 rs)" .
  from foldl_deeper_first_max[of r0 rs] f show ?thesis
    unfolding res by metis
qed

text \<open>
  C6, for stores in which nothing is reached again from inside itself. There the finder
  returns. On an empty sequence it returns not found, with the chain it was called
  with. In a non-empty sequence (that is not its own first element) it returns the
  result of the first child that reports found, when the children before it all
  returned not found; when all children return not found, it returns the result of one
  of them whose chain is at least as long as that of every other and strictly longer
  than that of every earlier one.
\<close>

theorem finder_first_found_or_deepest:
  assumes "ranked h rank"
  shows "find_first_nonempty_st h attr parents \<noteq> None
    \<and> (h p = [] \<longrightarrow> find_first_nonempty_st h (SSeq p) parents = Some (SNone, False, parents))
    \<and> (h p = pre @ x # rest \<and> hd (h p) \<noteq> SSeq p
        \<and> list_all2 (\<lambda>y r. find_first_nonempty_st h y (parents @ [SSeq p]) = Some r \<and> \<not> found r) pre res
        \<and> find_first_nonempty_st h x (parents @ [SSeq p]) = Some r \<and> found r
       \<longrightarrow> find_first_nonempty_st h (SSeq p) parents = Some r)
    \<and> (h p \<noteq> [] \<and> hd (h p) \<noteq> SSeq p
        \<and> list_all2 (\<lambda>y r. find_first_nonempty_st h y (parents @ [SSeq p]) = Some r \<and> \<not> found r) (h p) res'
       \<longrightarrow> (\<exists>i<length res'. find_first_nonempty_st h (SSeq p) parents = Some (res' ! i)
             \<and> (\<forall>j<i. depth (res' ! j) < depth (res' ! i))
             \<and> (\<forall>j<length res'. depth (res' ! j) \<le> depth (res' ! i))))"
proof (intro conjI impI)
  show "find_first_nonempty_st h attr parents \<noteq> None"
    using assms by (rule find_total)
next
  assume "h p = []"
  then show "find_first_nonempty_st h (SSeq p) parents = Some (SNone, False, parents)"
    by (simp add: find_Seq)
next
  assume a: "h p = pre @ x # rest \<and> hd (h p) \<noteq> SSeq p
        \<and> list_all2 (\<lambda>y r. find_first_nonempty_st h y (parents @ [SSeq p]) = Some r \<and> \<not> found r) pre res
        \<and> find_first_nonempty_st h x (parents @ [SSeq p]) = Some r \<and> found r"
  show "find_first_nonempty_st h (SSeq p) parents = Some r"
    by (rule seq_first_success[of h p pre x rest parents res r]) (use a in blast)+
next
  assume a: "h p \<noteq> [] \<and> hd (h p) \<noteq> SSeq p
        \<and> list_all2 (\<lambda>y r. find_first_nonempty_st h y (parents @ [SSeq p]) = Some r \<and> \<not> found r) (h p) res'"
  show "\<exists>i<length res'. find_first_nonempty_st h (SSeq p) parents = Some (res' ! i)
             \<and> (\<forall>j<i. depth (res' ! j) < depth (res' ! i))
             \<and> (\<forall>j<length res'. depth (res' ! j) \<le> depth (res' ! i))"
    by (rule seq_all_fail) (use a in blast)+
qed

theorem finder_first_found_or_deepest_witness:
  "ranked ((\<lambda>_. [])(0 := [SSeq 1, SSeq 2, SSeq 3, SSeq 4, SSeq 5], 2 := [SSeq 1],
                    3 := [SSeq 1], 4 := [SNone], 6 := [SSeq 1, SSeq 2, SSeq 3]))
      (\<lambda>p. if p = 0 \<or> p = 6 then 2 else if p = 1 then 0 else 1)
   \<and> find_first_nonempty_st
       ((\<lambda>_. [])(0 := [SSeq 1, SSeq 2, SSeq 3, SSeq 4, SSeq 5], 2 := [SSeq 1],
                  3 := [SSeq 1], 4 := [SNone], 6 := [SSeq 1, SSeq 2, SSeq 3]))
       (SSeq 5) [] = Some (SNone, False, [])
   \<and> find_first_nonempty_st
       ((\<lambda>_. [])(0 := [SSeq 1, SSeq 2, SSeq 3, SSeq 4, SSeq 5], 2 := [SSeq 1],
                  3 := [SSeq 1], 4 := [SNone], 6 := [SSeq 1, SSeq 2, SSeq 3]))
       (SSeq 0) [] = Some (SNone, True, [SSeq 0, SSeq 4])
   \<and> find_first_nonempty_st
       ((\<lambda>_. [])(0 := [SSeq 1, SSeq 2, SSeq 3, SSeq 4, SSeq 5], 2 := [SSeq 1],
                  3 := [SSeq 1], 4 := [SNone], 6 := [SSeq 1, SSeq 2, SSeq 3]))
       (SSeq 6) [] = Some (SNone, False, [SSeq 6, SSeq 2])"
proof -
  let ?h = "(\<lambda>_. [])(0 := [SSeq 1, SSeq 2, SSeq 3, SSeq 4, SSeq 5], 2 := [SSeq 1],
                       3 := [SSeq 1], 4 := [SNone], 6 := [SSeq 1, SSeq 2, SSeq 3]) :: store"
  let ?rank = "\<lambda>p::nat. if p = 0 \<or> p = 6 then 2 else if p = 1 then 0 else (1::nat)"
  let ?res = "[(SNone, False, [SSeq 0]), (SNone, False, [SSeq 0, SSeq 2]),
               (SNone, False, [SSeq 0, SSeq 3])]"
  let ?res' = "[(SNone, False, [SSeq 6]), (SNone, False, [SSeq 6, SSeq 2]),
                (SNone, False, [SSeq 6, SSeq 3])]"
  have r: "ranked ?h ?rank"
    by (auto simp: ranked_def split: if_splits)
  have pre: "list_all2 (\<lambda>y r. find_first_nonempty_st ?h y ([] @ [SSeq 0]) = Some r \<and> \<not> found r)
               [SSeq 1, SSeq 2, SSeq 3] ?res"
    by (simp add: find_Seq loop_Cons deeper_def)
  have x: "find_first_nonempty_st ?h (SSeq 4) ([] @ [SSeq 0]) = Some (SNone, True, [SSeq 0, SSeq 4])"
    by (simp add: find_Seq loop_Cons)
  have hp: "?h 0 = [SSeq 1, SSeq 2, SSeq 3] @ SSeq 4 # [SSeq 5]" by simp
  have first: "find_first_nonempty_st ?h (SSeq 5) [] = Some (SNone, False, [])
      \<and> find_first_nonempty_st ?h (SSeq 0) [] = Some (SNone, True, [SSeq 0, SSeq 4])"
    using finder_first_found_or_deepest[OF r, where p = 5 and parents = "[]"]
      finder_first_found_or_deepest[OF r, where p = 0 and parents = "[]"
        and pre = "[SSeq 1, SSeq 2, SSeq 3]" and x = "SSeq 4" and rest = "[SSeq 5]"
        and res = ?res and r = "(SNone, True, [SSeq 0, SSeq 4])"]
      pre x hp
    by simp
  have allfail: "list_all2 (\<lambda>y r. find_first_nonempty_st ?h y ([] @ [SSeq 6]) = Some r \<and> \<not> found r)
               (?h 6) ?res'"
    by (simp add: find_Seq loop_Cons deeper_def)
  have l: "length ?res' = 3" by simp
  have "\<exists>i<3. find_first_nonempty_st ?h (SSeq 6) [] = Some (?res' ! i)
             \<and> (\<forall>j<i. depth (?res' ! j) < depth (?res' ! i))
             \<and> (\<forall>j<3. depth (?res' ! j) \<le> depth (?res' ! i))"
    using finder_first_found_or_deepest[OF r, where p = 6 and parents = "[]" and res' = ?res'] allfail
    unfolding l by (simp del: nth_Cons_numeral nth_Cons_Suc nth_Cons_0 add: fun_upd_apply)
  then obtain i where i: "i < 3" "find_first_nonempty_st ?h (SSeq 6) [] = Some (?res' ! i)"
    "\<forall>j<i. depth (?res' ! j) < depth (?res' ! i)" "\<forall>j<3. depth (?res' ! j) \<le> depth (?res' ! i)"
    by blast
  from i(1) consider "i = 0" | "i = 1" | "i = 2" by linarith
  then have deepest: "find_first_nonempty_st ?h (SSeq 6) [] = Some (SNone, False, [SSeq 6, SSeq 2])"
  proof cases
    case 1
    with i(4)[rule_format, of 1] show ?thesis by simp
  next
    case 2
    with i(2) show ?thesis by simp
  next
    case 3
    with i(3)[rule_format, of 1] show ?thesis by simp
  qed
  show ?thesis using r first deepest by simp
qed

text \<open>
  C6 as stated fails: of two lists that contain each other the finder never returns
  (Python ends the recursion with a \<^verbatim>\<open>RecursionError\<close>).
\<close>

lemma mutual_cycle_diverges:
  assumes "ffn_run h c = Some r"
  shows "h = (\<lambda>_. [])(0 := [SSeq 1], 1 := [SSeq 0]) \<longrightarrow>
         (case c of
            Find a ps \<Rightarrow> a \<noteq> SSeq 0 \<and> a \<noteq> SSeq 1
          | Loop cs chain d \<Rightarrow> cs \<noteq> [SSeq 1] \<and> cs \<noteq> [SSeq 0])"
proof (rule ffn_run.raw_induct[where P = "\<lambda>h c r. h = (\<lambda>_. [])(0 := [SSeq 1], 1 := [SSeq 0]) \<longrightarrow>
         (case c of
            Find a ps \<Rightarrow> a \<noteq> SSeq 0 \<and> a \<noteq> SSeq 1
          | Loop cs chain d \<Rightarrow> cs \<noteq> [SSeq 1] \<and> cs \<noteq> [SSeq 0])", OF _ assms], goal_cases)
  case (1 f h c r)
  show ?case
  proof
    assume h: "h = (\<lambda>_. [])(0 := [SSeq 1], 1 := [SSeq 0])"
    show "case c of
            Find a ps \<Rightarrow> a \<noteq> SSeq 0 \<and> a \<noteq> SSeq 1
          | Loop cs chain d \<Rightarrow> cs \<noteq> [SSeq 1] \<and> cs \<noteq> [SSeq 0]"
    proof (cases c)
      case (Find a ps)
      have "a \<noteq> SSeq 0"
      proof
        assume a: "a = SSeq 0"
        then have "f h (Loop [SSeq 1] (ps @ [a]) (SNone, False, ps)) = Some r"
          using 1(2) Find h by simp
        from 1(1)[OF this] show False using h by simp
      qed
      moreover have "a \<noteq> SSeq 1"
      proof
        assume a: "a = SSeq 1"
        then have "f h (Loop [SSeq 0] (ps @ [a]) (SNone, False, ps)) = Some r"
          using 1(2) Find h by simp
        from 1(1)[OF this] show False using h by simp
      qed
      ultimately show ?thesis using Find by simp
    next
      case (Loop cs chain d)
      have "cs \<noteq> [SSeq k]" if "k = 0 \<or> k = 1" for k
      proof
        assume "cs = [SSeq k]"
        then obtain r1 where "f h (Find (SSeq k) chain) = Some r1"
          using 1(2) Loop by (auto simp: bind_eq_Some_conv)
        from 1(1)[OF this] show False using h that by auto
      qed
      from this[of 0] this[of 1] show ?thesis using Loop by simp
    qed
  qed
qed

theorem mutual_cycle_counterexample:
  "find_first_nonempty_st ((\<lambda>_. [])(0 := [SSeq 1], 1 := [SSeq 0])) (SSeq 0) [] = None"
proof (cases "find_first_nonempty_st ((\<lambda>_. [])(0 := [SSeq 1], 1 := [SSeq 0])) (SSeq 0) []")
  case None
  then show ?thesis .
next
  case (Some r)
  then have "ffn_run ((\<lambda>_. [])(0 := [SSeq 1], 1 := [SSeq 0])) (Find (SSeq 0) []) = Some r"
    by (simp add: find_first_nonempty_st_def)
  from mutual_cycle_diverges[OF this] show ?thesis by simp
qed





subsection \<open>One classifier for both passes\<close>

































end
